theory Spec2Isabelle
  imports Complex_Main "HOL-Library.Stream"
begin

unbundle bit_operations_syntax

section \<open>The quantum state-vector simulators of the repository\<close>

text \<open>
  The theory embeds the C++ class \<open>QuantumSimulator\<close> of
  \<^verbatim>\<open>src/cpp/quantum_simulator.cpp\<close> and the C functions of
  \<^verbatim>\<open>languages/c/quantum_simulator.c\<close>.

  Conventions of the embedding.
  \<^item> A \<open>double\<close> is an exact \<open>real\<close> and a \<open>complex<double>\<close> an exact
    \<open>complex\<close>: these definitions do not round, and a result about them is a result
    about the algorithm in exact arithmetic. The functions whose names end in \<open>_fl\<close>
    are \<open>applyH\<close> and \<open>measure\<close> with the rounding of double arithmetic; they
    are used where rounding decides.
  \<^item> An \<open>int\<close> that holds a qubit number, a mask or an index is a \<open>nat\<close>: negative
    qubit numbers are outside the model. The source computes masks and bounds as
    \<open>1 << k\<close> on 32-bit \<open>int\<close>; a method whose shifts do not fit (\<open>k \<ge> 31\<close>) ends
    in the fault \<open>ShiftOverflow\<close>. On a register of at most 30 qubits whose vector has
    \<open>2^num_qubits\<close> entries every other number the loops compute stays below \<open>2^31\<close>
    until the method returns or faults, so \<open>nat\<close> arithmetic is \<open>int\<close> arithmetic there.
  \<^item> \<open>std::vector::operator[]\<close> and C array indexing are unchecked. An access outside
    the buffer ends the model in the fault \<open>OutOfBounds\<close>. A fault is not an exception
    of the program: it marks undefined behaviour. A normal return is \<open>Inr\<close>.
  \<^item> The generator \<open>rng\<close> together with
    \<open>uniform_real_distribution<double>(0.0, 1.0)\<close> is the stream of the numbers it
    will produce; drawing takes the head and leaves the tail.
\<close>

datatype fault = OutOfBounds | ShiftOverflow

subsection \<open>The C program\<close>

definition MAX_QUBITS :: int where
  "MAX_QUBITS = 32"

datatype GateType = GATE_H | GATE_X | GATE_Y | GATE_Z | GATE_CNOT | GATE_SWAP

text \<open>The value of each enumerator, as \<open>%d\<close> prints it.\<close>

fun GateType_value :: "GateType \<Rightarrow> nat" where
  "GateType_value GATE_H = 0"
| "GateType_value GATE_X = 1"
| "GateType_value GATE_Y = 2"
| "GateType_value GATE_Z = 3"
| "GateType_value GATE_CNOT = 4"
| "GateType_value GATE_SWAP = 5"

record QuantumGate =
  type :: GateType
  target :: nat
  control :: int
  angle :: real

record QuantumState =
  num_qubits :: nat
  dimension :: nat
  amplitudes :: "complex list"

text \<open>
  \<open>create_state\<close>. The two allocations succeed or fail as the parameters
  \<open>malloc_ok\<close> and \<open>calloc_ok\<close> say. The result is the returned pointer (\<open>Inl\<close> for
  \<open>NULL\<close>, with the branch that returned it) and the allocator calls made, in order,
  a failed call included.
  \<open>calloc\<close> yields zeroed storage. The guard compares with \<open>MAX_QUBITS\<close> only; a count
  that passes it and for which \<open>1 << num_qubits\<close> is not defined on \<open>int\<close> (negative, or
  31 and 32) is the fault \<open>ShiftOverflow\<close>.
\<close>

datatype create_error = TooManyQubits | StateAllocFailed | AmplitudesAllocFailed

datatype alloc_call = Malloc_state | Calloc_amplitudes nat | Free_state

definition create_state ::
  "int \<Rightarrow> bool \<Rightarrow> bool \<Rightarrow> fault + ((create_error + QuantumState) \<times> alloc_call list)" where
  "create_state n malloc_ok calloc_ok =
     (if n > MAX_QUBITS then Inr (Inl TooManyQubits, [])
      else if \<not> malloc_ok then Inr (Inl StateAllocFailed, [Malloc_state])
      else if n < 0 \<or> 31 \<le> n then Inl ShiftOverflow
      else let dim = 2 ^ nat n in
        if \<not> calloc_ok then
          Inr (Inl AmplitudesAllocFailed, [Malloc_state, Calloc_amplitudes dim, Free_state])
        else
          Inr (Inr \<lparr>num_qubits = nat n, dimension = dim, amplitudes = replicate dim 0\<rparr>,
               [Malloc_state, Calloc_amplitudes dim]))"

text \<open>
  \<open>initialize_state\<close>: the loop, then the write to entry 0. The local \<open>dim\<close> of the
  C functions is written \<open>dim'\<close>.
\<close>

function initialize_state_loop :: "nat \<Rightarrow> nat \<Rightarrow> complex list \<Rightarrow> fault + complex list" where
  "initialize_state_loop dim' i amps =
     (if i < dim' then
        (if i < length amps then initialize_state_loop dim' (i + 1) (amps[i := 0])
         else Inl OutOfBounds)
      else Inr amps)"
  by pat_completeness auto
termination
  by (relation "measure (\<lambda>(dim', i, amps). dim' - i)") auto

definition initialize_state :: "QuantumState \<Rightarrow> fault + QuantumState" where
  "initialize_state state =
     (case initialize_state_loop (dimension state) 0 (amplitudes state) of
        Inl e \<Rightarrow> Inl e
      | Inr amps \<Rightarrow>
          if 0 < length amps then Inr (state\<lparr>amplitudes := amps[0 := 1]\<rparr>)
          else Inl OutOfBounds)"

text \<open>\<open>apply_hadamard\<close> and \<open>apply_pauli_x\<close>; \<open>shift\<close> is \<open>1 << qubit\<close>.\<close>

function apply_hadamard_inner :: "nat \<Rightarrow> nat \<Rightarrow> nat \<Rightarrow> complex list \<Rightarrow> fault + complex list" where
  "apply_hadamard_inner i qubit j amps =
     (let shift = 2 ^ qubit in
      if j < shift then
        (let idx0 = i + j; idx1 = i + j + shift in
         if idx0 < length amps \<and> idx1 < length amps then
           (let a0 = amps ! idx0; a1 = amps ! idx1 in
            apply_hadamard_inner i qubit (j + 1)
              (amps[idx0 := (a0 + a1) / complex_of_real (sqrt 2),
                    idx1 := (a0 - a1) / complex_of_real (sqrt 2)]))
         else Inl OutOfBounds)
      else Inr amps)"
  by pat_completeness auto
termination
  by (relation "measure (\<lambda>(i, qubit, j, amps). 2 ^ qubit - j)") auto

function apply_hadamard_outer :: "nat \<Rightarrow> nat \<Rightarrow> nat \<Rightarrow> complex list \<Rightarrow> fault + complex list" where
  "apply_hadamard_outer dim' qubit i amps =
     (let shift = 2 ^ qubit in
      if i < dim' then
        (case apply_hadamard_inner i qubit 0 amps of
           Inl e \<Rightarrow> Inl e
         | Inr amps' \<Rightarrow> apply_hadamard_outer dim' qubit (i + 2 * shift) amps')
      else Inr amps)"
  by pat_completeness auto
termination
  by (relation "measure (\<lambda>(dim', qubit, i, amps). dim' - i)") (simp_all add: diff_less_mono2)

definition apply_hadamard :: "QuantumState \<Rightarrow> nat \<Rightarrow> fault + QuantumState" where
  "apply_hadamard state qubit =
     (if 31 \<le> qubit then Inl ShiftOverflow
      else case apply_hadamard_outer (dimension state) qubit 0 (amplitudes state) of
             Inl e \<Rightarrow> Inl e
           | Inr amps' \<Rightarrow> Inr (state\<lparr>amplitudes := amps'\<rparr>))"

function apply_pauli_x_inner :: "nat \<Rightarrow> nat \<Rightarrow> nat \<Rightarrow> complex list \<Rightarrow> fault + complex list" where
  "apply_pauli_x_inner i qubit j amps =
     (let shift = 2 ^ qubit in
      if j < shift then
        (let idx0 = i + j; idx1 = i + j + shift in
         if idx0 < length amps \<and> idx1 < length amps then
           (let temp = amps ! idx0 in
            apply_pauli_x_inner i qubit (j + 1)
              (amps[idx0 := amps ! idx1, idx1 := temp]))
         else Inl OutOfBounds)
      else Inr amps)"
  by pat_completeness auto
termination
  by (relation "measure (\<lambda>(i, qubit, j, amps). 2 ^ qubit - j)") auto

function apply_pauli_x_outer :: "nat \<Rightarrow> nat \<Rightarrow> nat \<Rightarrow> complex list \<Rightarrow> fault + complex list" where
  "apply_pauli_x_outer dim' qubit i amps =
     (let shift = 2 ^ qubit in
      if i < dim' then
        (case apply_pauli_x_inner i qubit 0 amps of
           Inl e \<Rightarrow> Inl e
         | Inr amps' \<Rightarrow> apply_pauli_x_outer dim' qubit (i + 2 * shift) amps')
      else Inr amps)"
  by pat_completeness auto
termination
  by (relation "measure (\<lambda>(dim', qubit, i, amps). dim' - i)") (simp_all add: diff_less_mono2)

definition apply_pauli_x :: "QuantumState \<Rightarrow> nat \<Rightarrow> fault + QuantumState" where
  "apply_pauli_x state qubit =
     (if 31 \<le> qubit then Inl ShiftOverflow
      else case apply_pauli_x_outer (dimension state) qubit 0 (amplitudes state) of
             Inl e \<Rightarrow> Inl e
           | Inr amps' \<Rightarrow> Inr (state\<lparr>amplitudes := amps'\<rparr>))"

text \<open>
  \<open>apply_gate\<close>: the result is the state and the lines written to \<open>stderr\<close>. Only
  \<open>GATE_H\<close> and \<open>GATE_X\<close> have a case; every other type takes the \<open>default\<close> branch,
  which prints and changes nothing.
\<close>

definition apply_gate :: "QuantumState \<Rightarrow> QuantumGate \<Rightarrow> fault + (QuantumState \<times> string list)" where
  "apply_gate state gate =
     (case type gate of
        GATE_H \<Rightarrow>
          (case apply_hadamard state (target gate) of
             Inl e \<Rightarrow> Inl e | Inr state' \<Rightarrow> Inr (state', []))
      | GATE_X \<Rightarrow>
          (case apply_pauli_x state (target gate) of
             Inl e \<Rightarrow> Inl e | Inr state' \<Rightarrow> Inr (state', []))
      | _ \<Rightarrow>
          Inr (state,
               [''Gate type '' @ [char_of (48 + GateType_value (type gate))] @
                '' not implemented'']))"

subsection \<open>The C++ class\<close>

record QuantumSimulator =
  num_qubits :: nat
  state_vector :: "complex list"
  rng :: "real stream"

text \<open>\<open>std::norm\<close>: the squared magnitude of a complex number.\<close>

definition std_norm :: "complex \<Rightarrow> real" where
  "std_norm z = (Re z)\<^sup>2 + (Im z)\<^sup>2"

text \<open>
  The constructor. \<open>resize(dim, 0)\<close> fills the vector with zeros and entry 0 is set
  to 1; \<open>dim \<ge> 1\<close>, so that write is in range. The seed taken from
  \<open>random_device\<close> is the parameter \<open>g\<close>.
\<close>

definition QuantumSimulator :: "nat \<Rightarrow> real stream \<Rightarrow> fault + QuantumSimulator" where
  "QuantumSimulator n g =
     (if 31 \<le> n then Inl ShiftOverflow
      else let dim = 2 ^ n in
        Inr \<lparr>num_qubits = n, state_vector = (replicate dim 0)[0 := 1], rng = g\<rparr>)"

text \<open>\<open>applyH\<close>: the inner loop over \<open>j\<close>, the outer loop over \<open>i\<close>.\<close>

function applyH_inner :: "nat \<Rightarrow> nat \<Rightarrow> nat \<Rightarrow> complex list \<Rightarrow> fault + complex list" where
  "applyH_inner i q j sv =
     (let stride = 2 ^ q; block_size = stride in
      if j < block_size then
        (let idx0 = i + j; idx1 = i + j + stride in
         if idx0 < length sv \<and> idx1 < length sv then
           (let a = sv ! idx0; b = sv ! idx1 in
            applyH_inner i q (j + 1)
              (sv[idx0 := (a + b) / complex_of_real (sqrt 2),
                  idx1 := (a - b) / complex_of_real (sqrt 2)]))
         else Inl OutOfBounds)
      else Inr sv)"
  by pat_completeness auto
termination
  by (relation "measure (\<lambda>(i, q, j, sv). 2 ^ q - j)") auto

function applyH_outer :: "nat \<Rightarrow> nat \<Rightarrow> nat \<Rightarrow> complex list \<Rightarrow> fault + complex list" where
  "applyH_outer n q i sv =
     (let stride = 2 ^ q in
      if i < 2 ^ n then
        (case applyH_inner i q 0 sv of
           Inl e \<Rightarrow> Inl e
         | Inr sv' \<Rightarrow> applyH_outer n q (i + 2 * stride) sv')
      else Inr sv)"
  by pat_completeness auto
termination
  by (relation "measure (\<lambda>(n, q, i, sv). 2 ^ n - i)") (simp_all add: diff_less_mono2)

definition applyH :: "nat \<Rightarrow> QuantumSimulator \<Rightarrow> fault + QuantumSimulator" where
  "applyH q s =
     (if 31 \<le> q \<or> 31 \<le> num_qubits s then Inl ShiftOverflow
      else case applyH_outer (num_qubits s) q 0 (state_vector s) of
             Inl e \<Rightarrow> Inl e
           | Inr sv' \<Rightarrow> Inr (s\<lparr>state_vector := sv'\<rparr>))"

text \<open>\<open>applyX\<close>: \<open>swap\<close> on each pair.\<close>

function applyX_inner :: "nat \<Rightarrow> nat \<Rightarrow> nat \<Rightarrow> complex list \<Rightarrow> fault + complex list" where
  "applyX_inner i q j sv =
     (let stride = 2 ^ q in
      if j < stride then
        (if i + j < length sv \<and> i + j + stride < length sv then
           applyX_inner i q (j + 1)
             (sv[i + j := sv ! (i + j + stride), i + j + stride := sv ! (i + j)])
         else Inl OutOfBounds)
      else Inr sv)"
  by pat_completeness auto
termination
  by (relation "measure (\<lambda>(i, q, j, sv). 2 ^ q - j)") auto

function applyX_outer :: "nat \<Rightarrow> nat \<Rightarrow> nat \<Rightarrow> complex list \<Rightarrow> fault + complex list" where
  "applyX_outer n q i sv =
     (let stride = 2 ^ q in
      if i < 2 ^ n then
        (case applyX_inner i q 0 sv of
           Inl e \<Rightarrow> Inl e
         | Inr sv' \<Rightarrow> applyX_outer n q (i + 2 * stride) sv')
      else Inr sv)"
  by pat_completeness auto
termination
  by (relation "measure (\<lambda>(n, q, i, sv). 2 ^ n - i)") (simp_all add: diff_less_mono2)

definition applyX :: "nat \<Rightarrow> QuantumSimulator \<Rightarrow> fault + QuantumSimulator" where
  "applyX q s =
     (if 31 \<le> q \<or> 31 \<le> num_qubits s then Inl ShiftOverflow
      else case applyX_outer (num_qubits s) q 0 (state_vector s) of
             Inl e \<Rightarrow> Inl e
           | Inr sv' \<Rightarrow> Inr (s\<lparr>state_vector := sv'\<rparr>))"

text \<open>
  \<open>applyCNOT\<close>: one loop over all basis indices. \<open>i & control_mask\<close> as a condition
  is \<open>i AND control_mask \<noteq> 0\<close>.
\<close>

function applyCNOT_loop :: "nat \<Rightarrow> nat \<Rightarrow> nat \<Rightarrow> nat \<Rightarrow> complex list \<Rightarrow> fault + complex list" where
  "applyCNOT_loop n control_mask target_mask i sv =
     (if i < 2 ^ n then
        (if i AND control_mask \<noteq> 0 then
           (let target_bit = (if i AND target_mask \<noteq> 0 then 1 else 0 :: nat) in
            if target_bit = 0 then
              (let j = i XOR target_mask in
               if i < length sv \<and> j < length sv then
                 applyCNOT_loop n control_mask target_mask (i + 1)
                   (sv[i := sv ! j, j := sv ! i])
               else Inl OutOfBounds)
            else applyCNOT_loop n control_mask target_mask (i + 1) sv)
         else applyCNOT_loop n control_mask target_mask (i + 1) sv)
      else Inr sv)"
  by pat_completeness auto
termination
  by (relation "measure (\<lambda>(n, cm, tm, i, sv). 2 ^ n - i)") auto

definition applyCNOT :: "nat \<Rightarrow> nat \<Rightarrow> QuantumSimulator \<Rightarrow> fault + QuantumSimulator" where
  "applyCNOT c t s =
     (if 31 \<le> c \<or> 31 \<le> t \<or> 31 \<le> num_qubits s then Inl ShiftOverflow
      else let control_mask = 2 ^ c; target_mask = 2 ^ t in
        case applyCNOT_loop (num_qubits s) control_mask target_mask 0 (state_vector s) of
          Inl e \<Rightarrow> Inl e
        | Inr sv' \<Rightarrow> Inr (s\<lparr>state_vector := sv'\<rparr>))"

text \<open>\<open>applyRY\<close>: a \<open>double\<close> times a \<open>complex<double>\<close> scales both components.\<close>

function applyRY_inner ::
  "real \<Rightarrow> real \<Rightarrow> nat \<Rightarrow> nat \<Rightarrow> nat \<Rightarrow> complex list \<Rightarrow> fault + complex list" where
  "applyRY_inner cos_theta sin_theta i q j sv =
     (let stride = 2 ^ q in
      if j < stride then
        (let idx0 = i + j; idx1 = i + j + stride in
         if idx0 < length sv \<and> idx1 < length sv then
           (let a = sv ! idx0; b = sv ! idx1 in
            applyRY_inner cos_theta sin_theta i q (j + 1)
              (sv[idx0 := complex_of_real cos_theta * a - complex_of_real sin_theta * b,
                  idx1 := complex_of_real sin_theta * a + complex_of_real cos_theta * b]))
         else Inl OutOfBounds)
      else Inr sv)"
  by pat_completeness auto
termination
  by (relation "measure (\<lambda>(c, s, i, q, j, sv). 2 ^ q - j)") auto

function applyRY_outer ::
  "real \<Rightarrow> real \<Rightarrow> nat \<Rightarrow> nat \<Rightarrow> nat \<Rightarrow> complex list \<Rightarrow> fault + complex list" where
  "applyRY_outer cos_theta sin_theta n q i sv =
     (let stride = 2 ^ q in
      if i < 2 ^ n then
        (case applyRY_inner cos_theta sin_theta i q 0 sv of
           Inl e \<Rightarrow> Inl e
         | Inr sv' \<Rightarrow> applyRY_outer cos_theta sin_theta n q (i + 2 * stride) sv')
      else Inr sv)"
  by pat_completeness auto
termination
  by (relation "measure (\<lambda>(c, s, n, q, i, sv). 2 ^ n - i)") (simp_all add: diff_less_mono2)

definition applyRY :: "nat \<Rightarrow> real \<Rightarrow> QuantumSimulator \<Rightarrow> fault + QuantumSimulator" where
  "applyRY q theta s =
     (if 31 \<le> q \<or> 31 \<le> num_qubits s then Inl ShiftOverflow
      else let cos_theta = cos (theta / 2); sin_theta = sin (theta / 2) in
        case applyRY_outer cos_theta sin_theta (num_qubits s) q 0 (state_vector s) of
          Inl e \<Rightarrow> Inl e
        | Inr sv' \<Rightarrow> Inr (s\<lparr>state_vector := sv'\<rparr>))"

text \<open>
  \<open>measure\<close>, written \<open>measure'\<close> (the name is taken in HOL): the loop that accumulates \<open>prob0\<close>, the draw, and one of the two
  projection loops. \<open>(i & mask) == 0\<close> is \<open>i AND mask = 0\<close>; the vector is read only
  where that holds (the local \<open>mask\<close> is written \<open>mask'\<close>). Both projection loops touch entry \<open>i\<close> in either branch.
\<close>

function measure_prob0 :: "nat \<Rightarrow> nat \<Rightarrow> nat \<Rightarrow> complex list \<Rightarrow> real \<Rightarrow> fault + real" where
  "measure_prob0 n mask' i sv prob0 =
     (if i < 2 ^ n then
        (if i AND mask' = 0 then
           (if i < length sv then measure_prob0 n mask' (i + 1) sv (prob0 + std_norm (sv ! i))
            else Inl OutOfBounds)
         else measure_prob0 n mask' (i + 1) sv prob0)
      else Inr prob0)"
  by pat_completeness auto
termination
  by (relation "measure (\<lambda>(n, mask', i, sv, p). 2 ^ n - i)") auto

function measure_project0 :: "nat \<Rightarrow> nat \<Rightarrow> real \<Rightarrow> nat \<Rightarrow> complex list \<Rightarrow> fault + complex list" where
  "measure_project0 n mask' prob0 i sv =
     (if i < 2 ^ n then
        (if i < length sv then
           (if i AND mask' \<noteq> 0 then measure_project0 n mask' prob0 (i + 1) (sv[i := 0])
            else measure_project0 n mask' prob0 (i + 1)
                   (sv[i := sv ! i / complex_of_real (sqrt prob0)]))
         else Inl OutOfBounds)
      else Inr sv)"
  by pat_completeness auto
termination
  by (relation "measure (\<lambda>(n, mask', p, i, sv). 2 ^ n - i)") auto

function measure_project1 :: "nat \<Rightarrow> nat \<Rightarrow> real \<Rightarrow> nat \<Rightarrow> complex list \<Rightarrow> fault + complex list" where
  "measure_project1 n mask' prob1 i sv =
     (if i < 2 ^ n then
        (if i < length sv then
           (if i AND mask' \<noteq> 0 then
              measure_project1 n mask' prob1 (i + 1)
                (sv[i := sv ! i / complex_of_real (sqrt prob1)])
            else measure_project1 n mask' prob1 (i + 1) (sv[i := 0]))
         else Inl OutOfBounds)
      else Inr sv)"
  by pat_completeness auto
termination
  by (relation "measure (\<lambda>(n, mask', p, i, sv). 2 ^ n - i)") auto

definition measure' :: "nat \<Rightarrow> QuantumSimulator \<Rightarrow> fault + (int \<times> QuantumSimulator)" where
  "measure' q s =
     (if 31 \<le> q \<or> 31 \<le> num_qubits s then Inl ShiftOverflow
      else let mask' = 2 ^ q in
        case measure_prob0 (num_qubits s) mask' 0 (state_vector s) 0 of
          Inl e \<Rightarrow> Inl e
        | Inr prob0 \<Rightarrow>
            (let r = shd (rng s); g = stl (rng s) in
             if r < prob0 then
               (case measure_project0 (num_qubits s) mask' prob0 0 (state_vector s) of
                  Inl e \<Rightarrow> Inl e
                | Inr sv' \<Rightarrow> Inr (0, s\<lparr>state_vector := sv', rng := g\<rparr>))
             else
               (let prob1 = 1 - prob0 in
                case measure_project1 (num_qubits s) mask' prob1 0 (state_vector s) of
                  Inl e \<Rightarrow> Inl e
                | Inr sv' \<Rightarrow> Inr (1, s\<lparr>state_vector := sv', rng := g\<rparr>))))"

definition createBellState :: "QuantumSimulator \<Rightarrow> fault + QuantumSimulator" where
  "createBellState s =
     (case applyH 0 s of
        Inl e \<Rightarrow> Inl e
      | Inr s' \<Rightarrow> applyCNOT 0 1 s')"

text \<open>\<open>getProbabilities\<close>: \<open>probs\<close> starts as \<open>1 << num_qubits\<close> zeros.\<close>

function getProbabilities_loop :: "nat \<Rightarrow> nat \<Rightarrow> complex list \<Rightarrow> real list \<Rightarrow> fault + real list" where
  "getProbabilities_loop n i sv probs =
     (if i < 2 ^ n then
        (if i < length sv \<and> i < length probs then
           getProbabilities_loop n (i + 1) sv (probs[i := std_norm (sv ! i)])
         else Inl OutOfBounds)
      else Inr probs)"
  by pat_completeness auto
termination
  by (relation "measure (\<lambda>(n, i, sv, probs). 2 ^ n - i)") auto

definition getProbabilities :: "QuantumSimulator \<Rightarrow> fault + real list" where
  "getProbabilities s =
     (if 31 \<le> num_qubits s then Inl ShiftOverflow
      else getProbabilities_loop (num_qubits s) 0 (state_vector s)
             (replicate (2 ^ num_qubits s) 0))"

subsection \<open>The common shape of the pair loops\<close>

text \<open>
  \<open>applyH\<close>, \<open>applyX\<close>, \<open>applyRY\<close>, \<open>apply_hadamard\<close> and \<open>apply_pauli_x\<close> run the same
  two loops and differ in what they store into the pair. The two functions below are
  that shape with the stored values as parameters \<open>f\<close> (for \<open>idx0\<close>) and \<open>g\<close> (for
  \<open>idx1\<close>). They are not part of the program: each loop above is proved equal to an
  instance, and the facts about the loops are proved once, for the shape.
\<close>

function pair_inner ::
  "(complex \<Rightarrow> complex \<Rightarrow> complex) \<Rightarrow> (complex \<Rightarrow> complex \<Rightarrow> complex) \<Rightarrow>
   nat \<Rightarrow> nat \<Rightarrow> nat \<Rightarrow> complex list \<Rightarrow> fault + complex list" where
  "pair_inner f g i q j sv =
     (if j < 2 ^ q then
        (if i + j < length sv \<and> i + j + 2 ^ q < length sv then
           pair_inner f g i q (j + 1)
             (sv[i + j := f (sv ! (i + j)) (sv ! (i + j + 2 ^ q)),
                 i + j + 2 ^ q := g (sv ! (i + j)) (sv ! (i + j + 2 ^ q))])
         else Inl OutOfBounds)
      else Inr sv)"
  by pat_completeness auto
termination
  by (relation "measure (\<lambda>(f, g, i, q, j, sv). 2 ^ q - j)") auto

function pair_outer ::
  "(complex \<Rightarrow> complex \<Rightarrow> complex) \<Rightarrow> (complex \<Rightarrow> complex \<Rightarrow> complex) \<Rightarrow>
   nat \<Rightarrow> nat \<Rightarrow> nat \<Rightarrow> complex list \<Rightarrow> fault + complex list" where
  "pair_outer f g d q i sv =
     (if i < d then
        (case pair_inner f g i q 0 sv of
           Inl e \<Rightarrow> Inl e
         | Inr sv' \<Rightarrow> pair_outer f g d q (i + 2 * 2 ^ q) sv')
      else Inr sv)"
  by pat_completeness auto
termination
  by (relation "measure (\<lambda>(f, g, d, q, i, sv). d - i)") (simp_all add: diff_less_mono2)

subsection \<open>The measurement as the specification words it\<close>

text \<open>
  These two definitions follow the specification of \<open>measure\<close> (steps 1, 3 and 4),
  not the code; the code is compared with them. \<open>prob0_spec\<close> is the sum of
  \<open>|amplitude\<^sub>i|\<^sup>2\<close> over the basis indices whose \<open>qubit\<close>-th bit is 0. For the draw
  \<open>r\<close>, \<open>measure_spec\<close> is the outcome bit and the collapsed amplitudes: with
  \<open>r < prob0\<close> bit 0, every amplitude whose bit is 1 zeroed and every other one divided
  by \<open>\<surd>prob0\<close>; otherwise bit 1, every amplitude whose bit is 0 zeroed and every other
  one divided by \<open>\<surd>(1 - prob0)\<close>.
\<close>

definition prob0_spec :: "nat \<Rightarrow> complex list \<Rightarrow> real" where
  "prob0_spec qubit amps =
     sum_list (map (\<lambda>i. (cmod (amps ! i))\<^sup>2) (filter (\<lambda>i. \<not> bit i qubit) [0..<length amps]))"

definition measure_spec :: "nat \<Rightarrow> real \<Rightarrow> complex list \<Rightarrow> int \<times> complex list" where
  "measure_spec qubit r amps =
     (let prob0 = prob0_spec qubit amps in
      if r < prob0 then
        (0, map (\<lambda>i. if bit i qubit then 0 else amps ! i / complex_of_real (sqrt prob0))
              [0..<length amps])
      else
        (1, map (\<lambda>i. if bit i qubit then amps ! i / complex_of_real (sqrt (1 - prob0)) else 0)
              [0..<length amps]))"

subsection \<open>The C++ methods in double arithmetic\<close>

text \<open>
  The definitions above compute with exact reals. The functions of this section are
  \<open>applyH\<close> and \<open>measure\<close> once more, with every arithmetic operation on a \<open>double\<close>
  rounded as IEEE 754 binary64 does in the default mode: each of \<open>+\<close>, \<open>-\<close>, \<open>*\<close>, \<open>/\<close>
  and \<open>sqrt\<close> yields the double nearest to the exact result, ties to the even
  significand, with no fused operation. A double is the real number it stands for.
  \<open>fl\<close> is that rounding for a result whose magnitude is that of a normal double
  (\<open>2^-1022\<close> up to below \<open>2^1024\<close>): the exponent \<open>e\<close> makes \<open>x / 2^e\<close> a number with 53
  binary digits before the point, which is rounded to an integer. Overflow and
  subnormal results are not modelled. On a \<open>complex<double>\<close>, \<open>+\<close> and \<open>-\<close> work on
  the two parts, division by a \<open>double\<close> divides both parts, and \<open>std::norm\<close> is
  \<open>re * re + im * im\<close>.
\<close>

definition round_even :: "real \<Rightarrow> int" where
  "round_even x =
     (let f = \<lfloor>x\<rfloor>; d = x - of_int f in
      if d < 1 / 2 then f
      else if 1 / 2 < d then f + 1
      else if even f then f else f + 1)"

definition fl :: "real \<Rightarrow> real" where
  "fl x =
     (if x = 0 then 0
      else let e = \<lfloor>log 2 \<bar>x\<bar>\<rfloor> - 52 in
        of_int (round_even (x / 2 powr of_int e)) * 2 powr of_int e)"

definition complex_add_fl :: "complex \<Rightarrow> complex \<Rightarrow> complex" where
  "complex_add_fl a b = Complex (fl (Re a + Re b)) (fl (Im a + Im b))"

definition complex_sub_fl :: "complex \<Rightarrow> complex \<Rightarrow> complex" where
  "complex_sub_fl a b = Complex (fl (Re a - Re b)) (fl (Im a - Im b))"

definition complex_div_fl :: "complex \<Rightarrow> real \<Rightarrow> complex" where
  "complex_div_fl a d = Complex (fl (Re a / d)) (fl (Im a / d))"

definition std_norm_fl :: "complex \<Rightarrow> real" where
  "std_norm_fl z = fl (fl (Re z * Re z) + fl (Im z * Im z))"

function applyH_inner_fl :: "nat \<Rightarrow> nat \<Rightarrow> nat \<Rightarrow> complex list \<Rightarrow> fault + complex list" where
  "applyH_inner_fl i q j sv =
     (let stride = 2 ^ q; block_size = stride in
      if j < block_size then
        (let idx0 = i + j; idx1 = i + j + stride in
         if idx0 < length sv \<and> idx1 < length sv then
           (let a = sv ! idx0; b = sv ! idx1 in
            applyH_inner_fl i q (j + 1)
              (sv[idx0 := complex_div_fl (complex_add_fl a b) (fl (sqrt 2)),
                  idx1 := complex_div_fl (complex_sub_fl a b) (fl (sqrt 2))]))
         else Inl OutOfBounds)
      else Inr sv)"
  by pat_completeness auto
termination
  by (relation "measure (\<lambda>(i, q, j, sv). 2 ^ q - j)") auto

function applyH_outer_fl :: "nat \<Rightarrow> nat \<Rightarrow> nat \<Rightarrow> complex list \<Rightarrow> fault + complex list" where
  "applyH_outer_fl n q i sv =
     (let stride = 2 ^ q in
      if i < 2 ^ n then
        (case applyH_inner_fl i q 0 sv of
           Inl e \<Rightarrow> Inl e
         | Inr sv' \<Rightarrow> applyH_outer_fl n q (i + 2 * stride) sv')
      else Inr sv)"
  by pat_completeness auto
termination
  by (relation "measure (\<lambda>(n, q, i, sv). 2 ^ n - i)") (simp_all add: diff_less_mono2)

definition applyH_fl :: "nat \<Rightarrow> QuantumSimulator \<Rightarrow> fault + QuantumSimulator" where
  "applyH_fl q s =
     (if 31 \<le> q \<or> 31 \<le> num_qubits s then Inl ShiftOverflow
      else case applyH_outer_fl (num_qubits s) q 0 (state_vector s) of
             Inl e \<Rightarrow> Inl e
           | Inr sv' \<Rightarrow> Inr (s\<lparr>state_vector := sv'\<rparr>))"

function measure_prob0_fl :: "nat \<Rightarrow> nat \<Rightarrow> nat \<Rightarrow> complex list \<Rightarrow> real \<Rightarrow> fault + real" where
  "measure_prob0_fl n mask' i sv prob0 =
     (if i < 2 ^ n then
        (if i AND mask' = 0 then
           (if i < length sv then
              measure_prob0_fl n mask' (i + 1) sv (fl (prob0 + std_norm_fl (sv ! i)))
            else Inl OutOfBounds)
         else measure_prob0_fl n mask' (i + 1) sv prob0)
      else Inr prob0)"
  by pat_completeness auto
termination
  by (relation "measure (\<lambda>(n, mask', i, sv, p). 2 ^ n - i)") auto

function measure_project0_fl :: "nat \<Rightarrow> nat \<Rightarrow> real \<Rightarrow> nat \<Rightarrow> complex list \<Rightarrow> fault + complex list" where
  "measure_project0_fl n mask' prob0 i sv =
     (if i < 2 ^ n then
        (if i < length sv then
           (if i AND mask' \<noteq> 0 then measure_project0_fl n mask' prob0 (i + 1) (sv[i := 0])
            else measure_project0_fl n mask' prob0 (i + 1)
                   (sv[i := complex_div_fl (sv ! i) (fl (sqrt prob0))]))
         else Inl OutOfBounds)
      else Inr sv)"
  by pat_completeness auto
termination
  by (relation "measure (\<lambda>(n, mask', p, i, sv). 2 ^ n - i)") auto

function measure_project1_fl :: "nat \<Rightarrow> nat \<Rightarrow> real \<Rightarrow> nat \<Rightarrow> complex list \<Rightarrow> fault + complex list" where
  "measure_project1_fl n mask' prob1 i sv =
     (if i < 2 ^ n then
        (if i < length sv then
           (if i AND mask' \<noteq> 0 then
              measure_project1_fl n mask' prob1 (i + 1)
                (sv[i := complex_div_fl (sv ! i) (fl (sqrt prob1))])
            else measure_project1_fl n mask' prob1 (i + 1) (sv[i := 0]))
         else Inl OutOfBounds)
      else Inr sv)"
  by pat_completeness auto
termination
  by (relation "measure (\<lambda>(n, mask', p, i, sv). 2 ^ n - i)") auto

definition measure_fl :: "nat \<Rightarrow> QuantumSimulator \<Rightarrow> fault + (int \<times> QuantumSimulator)" where
  "measure_fl q s =
     (if 31 \<le> q \<or> 31 \<le> num_qubits s then Inl ShiftOverflow
      else let mask' = 2 ^ q in
        case measure_prob0_fl (num_qubits s) mask' 0 (state_vector s) 0 of
          Inl e \<Rightarrow> Inl e
        | Inr prob0 \<Rightarrow>
            (let r = shd (rng s); g = stl (rng s) in
             if r < prob0 then
               (case measure_project0_fl (num_qubits s) mask' prob0 0 (state_vector s) of
                  Inl e \<Rightarrow> Inl e
                | Inr sv' \<Rightarrow> Inr (0, s\<lparr>state_vector := sv', rng := g\<rparr>))
             else
               (let prob1 = fl (1 - prob0) in
                case measure_project1_fl (num_qubits s) mask' prob1 0 (state_vector s) of
                  Inl e \<Rightarrow> Inl e
                | Inr sv' \<Rightarrow> Inr (1, s\<lparr>state_vector := sv', rng := g\<rparr>))))"

declare applyH_inner.simps [simp del] applyH_outer.simps [simp del]
  applyX_inner.simps [simp del] applyX_outer.simps [simp del]
  applyRY_inner.simps [simp del] applyRY_outer.simps [simp del]
  applyCNOT_loop.simps [simp del]
  measure_prob0.simps [simp del] measure_project0.simps [simp del]
  measure_project1.simps [simp del] getProbabilities_loop.simps [simp del]
  initialize_state_loop.simps [simp del]
  apply_hadamard_inner.simps [simp del] apply_hadamard_outer.simps [simp del]
  apply_pauli_x_inner.simps [simp del] apply_pauli_x_outer.simps [simp del]
  pair_inner.simps [simp del] pair_outer.simps [simp del]

declare applyH_inner_fl.simps [simp del] applyH_outer_fl.simps [simp del]
  measure_prob0_fl.simps [simp del] measure_project0_fl.simps [simp del]
  measure_project1_fl.simps [simp del]

section \<open>Facts about the loops\<close>

subsection \<open>CNOT with one mask for control and target\<close>

lemma applyCNOT_loop_same_mask:
  "control_mask = target_mask \<Longrightarrow>
   applyCNOT_loop n control_mask target_mask i sv = Inr sv"
proof (induction n control_mask target_mask i sv rule: applyCNOT_loop.induct)
  case (1 n control_mask target_mask i sv)
  show ?case
  proof (cases "i < 2 ^ n")
    case True
    with 1 show ?thesis
      by (subst applyCNOT_loop.simps) (simp add: Let_def)
  next
    case False
    then show ?thesis
      by (subst applyCNOT_loop.simps) simp
  qed
qed

subsection \<open>Blocks of indices and the bit of the target qubit\<close>

lemma bit_block_low:
  fixes i k q :: nat
  assumes "2 * 2 ^ q dvd i" "i \<le> k" "k < i + 2 ^ q"
  shows "\<not> bit k q"
proof -
  from assms(1) obtain m where m: "i = 2 * 2 ^ q * m" by (auto simp: dvd_def)
  have "k div 2 ^ q = 2 * m"
    by (rule div_nat_eqI) (use assms m in \<open>auto simp: algebra_simps\<close>)
  then show ?thesis by (simp add: bit_iff_odd)
qed

lemma bit_block_high:
  fixes i k q :: nat
  assumes "2 * 2 ^ q dvd i" "i + 2 ^ q \<le> k" "k < i + 2 * 2 ^ q"
  shows "bit k q"
proof -
  from assms(1) obtain m where m: "i = 2 * 2 ^ q * m" by (auto simp: dvd_def)
  have "k div 2 ^ q = 2 * m + 1"
    by (rule div_nat_eqI) (use assms m in \<open>auto simp: algebra_simps\<close>)
  then show ?thesis by (simp add: bit_iff_odd)
qed

lemma bit_clear_partner_in_range:
  fixes d k q :: nat
  assumes "2 * 2 ^ q dvd d" "k < d" "\<not> bit k q"
  shows "k + 2 ^ q < d"
proof -
  define i where "i = 2 * 2 ^ q * (k div (2 * 2 ^ q))"
  have dv: "2 * 2 ^ q dvd i" by (simp add: i_def)
  have ik: "i \<le> k" unfolding i_def by simp
  have kl: "k < i + 2 * 2 ^ q"
    unfolding i_def using dividend_less_times_div[of "2 * 2 ^ q" k] by simp
  have "k < i + 2 ^ q"
    using bit_block_high[OF dv _ kl] assms(3) by (meson not_le_imp_less)
  moreover have "i + 2 * 2 ^ q \<le> d"
  proof -
    from assms(1) obtain m where m: "d = 2 * 2 ^ q * m" by (auto simp: dvd_def)
    have "k div (2 * 2 ^ q) < m"
      using assms(2) m by (simp add: less_mult_imp_div_less mult.commute)
    then have "Suc (k div (2 * 2 ^ q)) \<le> m" by simp
    then have "2 * 2 ^ q * Suc (k div (2 * 2 ^ q)) \<le> 2 * 2 ^ q * m"
      by (rule mult_le_mono2)
    then show ?thesis by (simp add: i_def m)
  qed
  ultimately show ?thesis by simp
qed

subsection \<open>The pair loops, entry by entry\<close>

lemma pair_inner_nth:
  assumes "i + 2 * 2 ^ q \<le> length sv" and "j \<le> 2 ^ q"
  shows "\<exists>sv'. pair_inner f g i q j sv = Inr sv' \<and> length sv' = length sv \<and>
           (\<forall>k<length sv. sv' ! k =
              (if i + j \<le> k \<and> k < i + 2 ^ q then f (sv ! k) (sv ! (k + 2 ^ q))
               else if i + 2 ^ q + j \<le> k \<and> k < i + 2 * 2 ^ q then g (sv ! (k - 2 ^ q)) (sv ! k)
               else sv ! k))"
  using assms
proof (induction f g i q j sv rule: pair_inner.induct)
  case (1 f g i q j sv)
  show ?case
  proof (cases "j < 2 ^ q")
    case False
    with 1 show ?thesis
      by (subst pair_inner.simps) auto
  next
    case True
    let ?sv2 = "sv[i + j := f (sv ! (i + j)) (sv ! (i + j + 2 ^ q)),
                 i + j + 2 ^ q := g (sv ! (i + j)) (sv ! (i + j + 2 ^ q))]"
    have rng: "i + j < length sv" "i + j + 2 ^ q < length sv"
      using True 1(2) by auto
    have len2: "length ?sv2 = length sv" by simp
    from 1(1)[OF True] rng 1(2) True
    obtain sv' where r: "pair_inner f g i q (j + 1) ?sv2 = Inr sv'"
      and l: "length sv' = length sv"
      and n: "\<forall>k<length sv. sv' ! k =
              (if i + (j + 1) \<le> k \<and> k < i + 2 ^ q then f (?sv2 ! k) (?sv2 ! (k + 2 ^ q))
               else if i + 2 ^ q + (j + 1) \<le> k \<and> k < i + 2 * 2 ^ q then g (?sv2 ! (k - 2 ^ q)) (?sv2 ! k)
               else ?sv2 ! k)"
      by (auto simp: len2)
    have "pair_inner f g i q j sv = Inr sv'"
      using True rng r by (subst pair_inner.simps) simp
    moreover have "\<forall>k<length sv. sv' ! k =
              (if i + j \<le> k \<and> k < i + 2 ^ q then f (sv ! k) (sv ! (k + 2 ^ q))
               else if i + 2 ^ q + j \<le> k \<and> k < i + 2 * 2 ^ q then g (sv ! (k - 2 ^ q)) (sv ! k)
               else sv ! k)"
    proof (intro allI impI)
      fix k assume k: "k < length sv"
      show "sv' ! k =
              (if i + j \<le> k \<and> k < i + 2 ^ q then f (sv ! k) (sv ! (k + 2 ^ q))
               else if i + 2 ^ q + j \<le> k \<and> k < i + 2 * 2 ^ q then g (sv ! (k - 2 ^ q)) (sv ! k)
               else sv ! k)"
      proof -
        consider (a) "k = i + j" | (b) "k = i + j + 2 ^ q"
          | (c) "k \<noteq> i + j" "k \<noteq> i + j + 2 ^ q" by blast
        then show ?thesis
        proof cases
          case a
          then show ?thesis using n[rule_format, OF k] k rng True
            by (simp add: nth_list_update)
        next
          case b
          then show ?thesis using n[rule_format, OF k] k rng True
            by (simp add: nth_list_update)
        next
          case c
          then show ?thesis using n[rule_format, OF k] k rng True
            by (auto simp: nth_list_update)
        qed
      qed
    qed
    ultimately show ?thesis using l by blast
  qed
qed

lemma block_fits:
  fixes d i s :: nat
  assumes "s dvd d" "s dvd i" "i < d"
  shows "i + s \<le> d"
proof -
  from assms obtain a b where ab: "d = s * a" "i = s * b" by (auto simp: dvd_def)
  with assms(3) have "b < a" by auto
  then have "Suc b \<le> a" by simp
  then have "s * Suc b \<le> s * a" by (rule mult_le_mono2)
  then show ?thesis using ab by simp
qed

lemma pair_outer_nth:
  assumes "length sv = d" and "2 * 2 ^ q dvd d" and "2 * 2 ^ q dvd i" and "i \<le> d"
  shows "\<exists>sv'. pair_outer f g d q i sv = Inr sv' \<and> length sv' = d \<and>
           (\<forall>k<d. sv' ! k =
              (if k < i then sv ! k
               else if bit k q then g (sv ! (k - 2 ^ q)) (sv ! k)
               else f (sv ! k) (sv ! (k + 2 ^ q))))"
  using assms
proof (induction f g d q i sv rule: pair_outer.induct)
  case (1 f g d q i sv)
  show ?case
  proof (cases "i < d")
    case False
    with 1(2-) show ?thesis
      by (subst pair_outer.simps) auto
  next
    case True
    have fits: "i + 2 * 2 ^ q \<le> d"
      using block_fits[OF "1.prems"(2) "1.prems"(3) True] .
    from pair_inner_nth[of i q sv 0 f g] fits "1.prems"(1)
    obtain sv1 where r1: "pair_inner f g i q 0 sv = Inr sv1"
      and l1: "length sv1 = d"
      and n1: "\<forall>k<d. sv1 ! k =
              (if i \<le> k \<and> k < i + 2 ^ q then f (sv ! k) (sv ! (k + 2 ^ q))
               else if i + 2 ^ q \<le> k \<and> k < i + 2 * 2 ^ q then g (sv ! (k - 2 ^ q)) (sv ! k)
               else sv ! k)"
      by auto
    have dv2: "2 * 2 ^ q dvd i + 2 * 2 ^ q"
      using "1.prems"(3) by simp
    from "1.IH"[OF True r1 l1 "1.prems"(2) dv2 fits]
    obtain sv' where r: "pair_outer f g d q (i + 2 * 2 ^ q) sv1 = Inr sv'"
      and l: "length sv' = d"
      and n: "\<forall>k<d. sv' ! k =
              (if k < i + 2 * 2 ^ q then sv1 ! k
               else if bit k q then g (sv1 ! (k - 2 ^ q)) (sv1 ! k)
               else f (sv1 ! k) (sv1 ! (k + 2 ^ q)))"
      by auto
    have res: "pair_outer f g d q i sv = Inr sv'"
      using True r1 r by (subst pair_outer.simps) simp
    have "sv' ! k =
              (if k < i then sv ! k
               else if bit k q then g (sv ! (k - 2 ^ q)) (sv ! k)
               else f (sv ! k) (sv ! (k + 2 ^ q)))" if k: "k < d" for k
    proof -
      consider (before) "k < i" | (low) "i \<le> k" "k < i + 2 ^ q"
        | (high) "i + 2 ^ q \<le> k" "k < i + 2 * 2 ^ q"
        | (after) "i + 2 * 2 ^ q \<le> k" by linarith
      then show ?thesis
      proof cases
        case before
        then show ?thesis using n[rule_format, OF k] n1[rule_format, OF k] by simp
      next
        case low
        have "\<not> bit k q" using bit_block_low[OF "1.prems"(3) low] .
        then show ?thesis using low n[rule_format, OF k] n1[rule_format, OF k] by simp
      next
        case high
        have "bit k q" using bit_block_high[OF "1.prems"(3) high] .
        then show ?thesis using high n[rule_format, OF k] n1[rule_format, OF k] by simp
      next
        case after
        show ?thesis
        proof (cases "bit k q")
          case True
          have "\<not> k < i + 2 * 2 ^ q + 2 ^ q"
            using bit_block_low[OF dv2 after] True by blast
          then have far: "i + 2 * 2 ^ q \<le> k - 2 ^ q" by simp
          have "k - 2 ^ q < d" using k by simp
          from n1[rule_format, OF this] far have "sv1 ! (k - 2 ^ q) = sv ! (k - 2 ^ q)"
            by simp
          then show ?thesis
            using True after n[rule_format, OF k] n1[rule_format, OF k] by simp
        next
          case False
          have "k + 2 ^ q < d"
            using bit_clear_partner_in_range[OF "1.prems"(2) k False] .
          from n1[rule_format, OF this] after have "sv1 ! (k + 2 ^ q) = sv ! (k + 2 ^ q)"
            by simp
          then show ?thesis
            using False after n[rule_format, OF k] n1[rule_format, OF k] by simp
        qed
      qed
    qed
    with res l show ?thesis by blast
  qed
qed

subsection \<open>The pair loops keep the sum of a pairwise-preserved quantity\<close>

lemma sum_list_map_update:
  fixes N :: "'a \<Rightarrow> real"
  assumes "i < length xs"
  shows "sum_list (map N (xs[i := v])) = sum_list (map N xs) - N (xs ! i) + N v"
  using assms
proof (induction xs arbitrary: i)
  case Nil
  then show ?case by simp
next
  case (Cons x xs)
  then show ?case by (cases i) auto
qed

lemma sum_list_map_update2:
  fixes N :: "'a \<Rightarrow> real"
  assumes "i < length xs" "j < length xs" "i \<noteq> j"
    and "N v + N w = N (xs ! i) + N (xs ! j)"
  shows "sum_list (map N (xs[i := v, j := w])) = sum_list (map N xs)"
proof -
  have "sum_list (map N (xs[i := v, j := w]))
      = sum_list (map N (xs[i := v])) - N (xs[i := v] ! j) + N w"
    using assms(2) by (simp add: sum_list_map_update)
  also have "\<dots> = sum_list (map N xs) - N (xs ! i) + N v - N (xs ! j) + N w"
    using assms(1,3) by (simp add: sum_list_map_update)
  finally show ?thesis using assms(4) by simp
qed

lemma pair_inner_sum:
  fixes N :: "complex \<Rightarrow> real"
  assumes "\<And>a b. N (f a b) + N (g a b) = N a + N b"
    and "pair_inner f g i q j sv = Inr sv'"
  shows "sum_list (map N sv') = sum_list (map N sv)"
  using assms
proof (induction f g i q j sv rule: pair_inner.induct)
  case (1 f g i q j sv)
  note inv = "1.prems"(1) and run = "1.prems"(2)
  show ?case
  proof (cases "j < 2 ^ q")
    case False
    with run show ?thesis
      by (subst (asm) pair_inner.simps) simp
  next
    case True
    note lt = this
    show ?thesis
    proof (cases "i + j < length sv \<and> i + j + 2 ^ q < length sv")
      case False
      with lt run show ?thesis
        by (subst (asm) pair_inner.simps) auto
    next
      case True
      let ?sv2 = "sv[i + j := f (sv ! (i + j)) (sv ! (i + j + 2 ^ q)),
                   i + j + 2 ^ q := g (sv ! (i + j)) (sv ! (i + j + 2 ^ q))]"
      have "pair_inner f g i q (j + 1) ?sv2 = Inr sv'"
        using run lt True by (subst (asm) pair_inner.simps) simp
      from "1.IH"[OF lt True inv this]
      have "sum_list (map N sv') = sum_list (map N ?sv2)" .
      also have "\<dots> = sum_list (map N sv)"
        using True by (intro sum_list_map_update2) (simp_all add: inv)
      finally show ?thesis .
    qed
  qed
qed

lemma pair_outer_sum:
  fixes N :: "complex \<Rightarrow> real"
  assumes "\<And>a b. N (f a b) + N (g a b) = N a + N b"
    and "pair_outer f g d q i sv = Inr sv'"
  shows "sum_list (map N sv') = sum_list (map N sv)"
  using assms
proof (induction f g d q i sv rule: pair_outer.induct)
  case (1 f g d q i sv)
  note inv = "1.prems"(1) and run = "1.prems"(2)
  show ?case
  proof (cases "i < d")
    case False
    with run show ?thesis
      by (subst (asm) pair_outer.simps) simp
  next
    case True
    from run True obtain sv1 where r1: "pair_inner f g i q 0 sv = Inr sv1"
      and r: "pair_outer f g d q (i + 2 * 2 ^ q) sv1 = Inr sv'"
      by (subst (asm) pair_outer.simps) (auto split: sum.splits)
    from "1.IH"[OF True r1 inv r] pair_inner_sum[of N f g, OF inv r1]
    show ?thesis by simp
  qed
qed

subsection \<open>The CNOT loop\<close>

lemma xor_exp_less:
  fixes i :: nat
  assumes "i < 2 ^ n" "t < n"
  shows "i XOR 2 ^ t < 2 ^ n"
proof -
  have "int i XOR int (2 ^ t) < 2 ^ n"
  proof (rule XOR_upper)
    show "0 \<le> int i" by simp
    show "int i < 2 ^ n" using assms(1) by (metis of_nat_less_iff of_nat_numeral of_nat_power)
    show "int (2 ^ t) < 2 ^ n" using assms(2) by simp
  qed
  then have "int (i XOR 2 ^ t) < int (2 ^ n)" by (simp add: of_nat_xor_eq)
  then show ?thesis by (simp only: of_nat_less_iff)
qed

lemma xor_exp_neq:
  fixes i :: nat
  shows "i XOR 2 ^ t \<noteq> i"
  by (metis power_not_zero xor.assoc xor.left_neutral xor_self_eq zero_neq_numeral)


subsection \<open>The loops of the measurement\<close>

lemma std_norm_cmod: "std_norm z = (cmod z)\<^sup>2"
  by (simp add: std_norm_def cmod_power2)

lemma and_exp_eq_0_iff: "(k::nat) AND 2 ^ q = 0 \<longleftrightarrow> \<not> bit k q"
  by (simp add: and_exp_eq_0_iff_not_bit)

lemma measure_prob0_sum:
  assumes "2 ^ n \<le> length sv"
  shows "measure_prob0 n m i sv acc =
         Inr (acc + sum_list (map (\<lambda>k. std_norm (sv ! k)) (filter (\<lambda>k. k AND m = 0) [i..<2 ^ n])))"
  using assms
proof (induction n m i sv acc rule: measure_prob0.induct)
  case (1 n m i sv acc)
  show ?case
  proof (cases "i < 2 ^ n")
    case False
    then show ?thesis by (subst measure_prob0.simps) simp
  next
    case True
    then have il: "i < length sv" using "1.prems" by simp
    have up: "[i..<2 ^ n] = i # [i + 1..<2 ^ n]" using True by (simp add: upt_conv_Cons)
    show ?thesis
    proof (cases "i AND m = 0")
      case True
      with \<open>i < 2 ^ n\<close> il "1.IH"(1)[OF \<open>i < 2 ^ n\<close> True il "1.prems"] show ?thesis
        by (subst measure_prob0.simps) (simp add: up)
    next
      case False
      with \<open>i < 2 ^ n\<close> "1.IH"(2)[OF \<open>i < 2 ^ n\<close> False "1.prems"] show ?thesis
        by (subst measure_prob0.simps) (simp add: up)
    qed
  qed
qed

lemma measure_project0_nth:
  assumes "length sv = 2 ^ n"
  shows "\<exists>sv'. measure_project0 n m p i sv = Inr sv' \<and> length sv' = 2 ^ n \<and>
           (\<forall>k<2 ^ n. sv' ! k =
              (if k < i then sv ! k
               else if k AND m \<noteq> 0 then 0
               else sv ! k / complex_of_real (sqrt p)))"
  using assms
proof (induction n m p i sv rule: measure_project0.induct)
  case (1 n m p i sv)
  show ?case
  proof (cases "i < 2 ^ n")
    case False
    then show ?thesis using "1.prems" by (subst measure_project0.simps) simp
  next
    case True
    then have il: "i < length sv" using "1.prems" by simp
    show ?thesis
    proof (cases "i AND m \<noteq> 0")
      case c: True
      from "1.IH"(1)[OF True il c] "1.prems"
      obtain sv' where "measure_project0 n m p (i + 1) (sv[i := 0]) = Inr sv'"
        "length sv' = 2 ^ n"
        "\<forall>k<2 ^ n. sv' ! k = (if k < i + 1 then sv[i := 0] ! k
               else if k AND m \<noteq> 0 then 0
               else sv[i := 0] ! k / complex_of_real (sqrt p))"
        by auto
      then show ?thesis using True il c
        by (subst measure_project0.simps) (auto simp: nth_list_update less_Suc_eq)
    next
      case c: False
      from "1.IH"(2)[OF True il c] "1.prems"
      obtain sv' where "measure_project0 n m p (i + 1) (sv[i := sv ! i / complex_of_real (sqrt p)]) = Inr sv'"
        "length sv' = 2 ^ n"
        "\<forall>k<2 ^ n. sv' ! k = (if k < i + 1 then sv[i := sv ! i / complex_of_real (sqrt p)] ! k
               else if k AND m \<noteq> 0 then 0
               else sv[i := sv ! i / complex_of_real (sqrt p)] ! k / complex_of_real (sqrt p))"
        by auto
      then show ?thesis using True il c
        by (subst measure_project0.simps) (auto simp: nth_list_update less_Suc_eq)
    qed
  qed
qed

lemma measure_project1_nth:
  assumes "length sv = 2 ^ n"
  shows "\<exists>sv'. measure_project1 n m p i sv = Inr sv' \<and> length sv' = 2 ^ n \<and>
           (\<forall>k<2 ^ n. sv' ! k =
              (if k < i then sv ! k
               else if k AND m \<noteq> 0 then sv ! k / complex_of_real (sqrt p)
               else 0))"
  using assms
proof (induction n m p i sv rule: measure_project1.induct)
  case (1 n m p i sv)
  show ?case
  proof (cases "i < 2 ^ n")
    case False
    then show ?thesis using "1.prems" by (subst measure_project1.simps) simp
  next
    case True
    then have il: "i < length sv" using "1.prems" by simp
    show ?thesis
    proof (cases "i AND m \<noteq> 0")
      case c: True
      from "1.IH"(1)[OF True il c] "1.prems"
      obtain sv' where "measure_project1 n m p (i + 1) (sv[i := sv ! i / complex_of_real (sqrt p)]) = Inr sv'"
        "length sv' = 2 ^ n"
        "\<forall>k<2 ^ n. sv' ! k = (if k < i + 1 then sv[i := sv ! i / complex_of_real (sqrt p)] ! k
               else if k AND m \<noteq> 0 then sv[i := sv ! i / complex_of_real (sqrt p)] ! k / complex_of_real (sqrt p)
               else 0)"
        by auto
      then show ?thesis using True il c
        by (subst measure_project1.simps) (auto simp: nth_list_update less_Suc_eq)
    next
      case c: False
      from "1.IH"(2)[OF True il c] "1.prems"
      obtain sv' where "measure_project1 n m p (i + 1) (sv[i := 0]) = Inr sv'"
        "length sv' = 2 ^ n"
        "\<forall>k<2 ^ n. sv' ! k = (if k < i + 1 then sv[i := 0] ! k
               else if k AND m \<noteq> 0 then sv[i := 0] ! k / complex_of_real (sqrt p)
               else 0)"
        by auto
      then show ?thesis using True il c
        by (subst measure_project1.simps) (auto simp: nth_list_update less_Suc_eq)
    qed
  qed
qed

lemma measure_prob0_spec:
  assumes "length sv = 2 ^ n"
  shows "measure_prob0 n (2 ^ q) 0 sv 0 = Inr (prob0_spec q sv)"
  using assms
  by (simp add: measure_prob0_sum prob0_spec_def std_norm_cmod and_exp_eq_0_iff)

lemma measure_project0_spec:
  assumes "length sv = 2 ^ n"
  shows "measure_project0 n (2 ^ q) p 0 sv =
         Inr (map (\<lambda>i. if bit i q then 0 else sv ! i / complex_of_real (sqrt p)) [0..<length sv])"
proof -
  from measure_project0_nth[OF assms, of "2 ^ q" p 0]
  obtain sv' where r: "measure_project0 n (2 ^ q) p 0 sv = Inr sv'"
    and l: "length sv' = 2 ^ n"
    and n: "\<forall>k<2 ^ n. sv' ! k =
              (if k AND 2 ^ q \<noteq> 0 then 0 else sv ! k / complex_of_real (sqrt p))"
    by auto
  have "sv' = map (\<lambda>i. if bit i q then 0 else sv ! i / complex_of_real (sqrt p)) [0..<length sv]"
    by (rule nth_equalityI) (use l n assms in \<open>auto simp: and_exp_eq_0_iff\<close>)
  with r show ?thesis by simp
qed

lemma measure_project1_spec:
  assumes "length sv = 2 ^ n"
  shows "measure_project1 n (2 ^ q) p 0 sv =
         Inr (map (\<lambda>i. if bit i q then sv ! i / complex_of_real (sqrt p) else 0) [0..<length sv])"
proof -
  from measure_project1_nth[OF assms, of "2 ^ q" p 0]
  obtain sv' where r: "measure_project1 n (2 ^ q) p 0 sv = Inr sv'"
    and l: "length sv' = 2 ^ n"
    and n: "\<forall>k<2 ^ n. sv' ! k =
              (if k AND 2 ^ q \<noteq> 0 then sv ! k / complex_of_real (sqrt p) else 0)"
    by auto
  have "sv' = map (\<lambda>i. if bit i q then sv ! i / complex_of_real (sqrt p) else 0) [0..<length sv]"
    by (rule nth_equalityI) (use l n assms in \<open>auto simp: and_exp_eq_0_iff\<close>)
  with r show ?thesis by simp
qed

lemma measure_eq_spec:
  assumes "length (state_vector s) = 2 ^ num_qubits s" and "q < 31" and "num_qubits s < 31"
  shows "measure' q s =
         Inr (fst (measure_spec q (shd (rng s)) (state_vector s)),
              s\<lparr>state_vector := snd (measure_spec q (shd (rng s)) (state_vector s)),
                rng := stl (rng s)\<rparr>)"
  using assms
  by (simp add: measure'_def measure_spec_def Let_def measure_prob0_spec
      measure_project0_spec measure_project1_spec)

subsection \<open>What each gate stores into a pair keeps the pair's squared magnitude\<close>

lemma std_norm_hadamard:
  "std_norm ((a + b) / complex_of_real (sqrt 2)) + std_norm ((a - b) / complex_of_real (sqrt 2))
   = std_norm a + std_norm b"
proof -
  have "((x + y) / sqrt 2)\<^sup>2 + ((x - y) / sqrt 2)\<^sup>2 = x\<^sup>2 + y\<^sup>2" for x y :: real
    by (simp add: power2_sum power2_diff field_simps)
  from this[of "Re a" "Re b"] this[of "Im a" "Im b"] show ?thesis
    by (simp add: std_norm_def)
qed

lemma std_norm_swap: "std_norm b + std_norm a = std_norm a + std_norm b"
  by simp

lemma std_norm_rotation:
  "std_norm (complex_of_real (cos t) * a - complex_of_real (sin t) * b)
   + std_norm (complex_of_real (sin t) * a + complex_of_real (cos t) * b)
   = std_norm a + std_norm b"
proof -
  have "(c * x - s * y)\<^sup>2 + (s * x + c * y)\<^sup>2 = (c\<^sup>2 + s\<^sup>2) * (x\<^sup>2 + y\<^sup>2)" for c s x y :: real
    by (simp add: power2_eq_square algebra_simps)
  from this[of "cos t" "Re a" "sin t" "Re b"] this[of "cos t" "Im a" "sin t" "Im b"]
  show ?thesis
    by (simp add: std_norm_def)
qed

lemma std_norm_divide_real: "std_norm (z / complex_of_real r) = std_norm z / r\<^sup>2"
  by (simp add: std_norm_def power_divide add_divide_distrib)

subsection \<open>Each pair loop of the program is an instance of the common shape\<close>

lemma applyH_inner_pair:
  "applyH_inner i q j sv =
   pair_inner (\<lambda>a b. (a + b) / complex_of_real (sqrt 2))
              (\<lambda>a b. (a - b) / complex_of_real (sqrt 2)) i q j sv"
proof (induction i q j sv rule: applyH_inner.induct)
  case (1 i q j sv)
  show ?case
    apply (subst applyH_inner.simps)
    apply (subst pair_inner.simps)
    using 1 apply (simp add: Let_def)
    done
qed

lemma applyH_outer_pair:
  "applyH_outer n q i sv =
   pair_outer (\<lambda>a b. (a + b) / complex_of_real (sqrt 2))
              (\<lambda>a b. (a - b) / complex_of_real (sqrt 2)) (2 ^ n) q i sv"
proof (induction n q i sv rule: applyH_outer.induct)
  case (1 n q i sv)
  show ?case
    apply (subst applyH_outer.simps)
    apply (subst pair_outer.simps)
    using 1 apply (simp add: Let_def applyH_inner_pair split: sum.splits)
    done
qed

lemma applyX_inner_pair:
  "applyX_inner i q j sv =
   pair_inner (\<lambda>a b. b)
              (\<lambda>a b. a) i q j sv"
proof (induction i q j sv rule: applyX_inner.induct)
  case (1 i q j sv)
  show ?case
    apply (subst applyX_inner.simps)
    apply (subst pair_inner.simps)
    using 1 apply (simp add: Let_def)
    done
qed

lemma applyX_outer_pair:
  "applyX_outer n q i sv =
   pair_outer (\<lambda>a b. b)
              (\<lambda>a b. a) (2 ^ n) q i sv"
proof (induction n q i sv rule: applyX_outer.induct)
  case (1 n q i sv)
  show ?case
    apply (subst applyX_outer.simps)
    apply (subst pair_outer.simps)
    using 1 apply (simp add: Let_def applyX_inner_pair split: sum.splits)
    done
qed

lemma applyRY_inner_pair:
  "applyRY_inner c s i q j sv =
   pair_inner (\<lambda>a b. complex_of_real c * a - complex_of_real s * b)
              (\<lambda>a b. complex_of_real s * a + complex_of_real c * b) i q j sv"
proof (induction c s i q j sv rule: applyRY_inner.induct)
  case (1 c s i q j sv)
  show ?case
    apply (subst applyRY_inner.simps)
    apply (subst pair_inner.simps)
    using 1 apply (simp add: Let_def)
    done
qed

lemma applyRY_outer_pair:
  "applyRY_outer c s n q i sv =
   pair_outer (\<lambda>a b. complex_of_real c * a - complex_of_real s * b)
              (\<lambda>a b. complex_of_real s * a + complex_of_real c * b) (2 ^ n) q i sv"
proof (induction c s n q i sv rule: applyRY_outer.induct)
  case (1 c s n q i sv)
  show ?case
    apply (subst applyRY_outer.simps)
    apply (subst pair_outer.simps)
    using 1 apply (simp add: Let_def applyRY_inner_pair split: sum.splits)
    done
qed

lemma apply_hadamard_inner_pair:
  "apply_hadamard_inner i q j sv =
   pair_inner (\<lambda>a b. (a + b) / complex_of_real (sqrt 2))
              (\<lambda>a b. (a - b) / complex_of_real (sqrt 2)) i q j sv"
proof (induction i q j sv rule: apply_hadamard_inner.induct)
  case (1 i q j sv)
  show ?case
    apply (subst apply_hadamard_inner.simps)
    apply (subst pair_inner.simps)
    using 1 apply (simp add: Let_def)
    done
qed

lemma apply_hadamard_outer_pair:
  "apply_hadamard_outer d q i sv =
   pair_outer (\<lambda>a b. (a + b) / complex_of_real (sqrt 2))
              (\<lambda>a b. (a - b) / complex_of_real (sqrt 2)) d q i sv"
proof (induction d q i sv rule: apply_hadamard_outer.induct)
  case (1 d q i sv)
  show ?case
    apply (subst apply_hadamard_outer.simps)
    apply (subst pair_outer.simps)
    using 1 apply (simp add: Let_def apply_hadamard_inner_pair split: sum.splits)
    done
qed

lemma apply_pauli_x_inner_pair:
  "apply_pauli_x_inner i q j sv =
   pair_inner (\<lambda>a b. b)
              (\<lambda>a b. a) i q j sv"
proof (induction i q j sv rule: apply_pauli_x_inner.induct)
  case (1 i q j sv)
  show ?case
    apply (subst apply_pauli_x_inner.simps)
    apply (subst pair_inner.simps)
    using 1 apply (simp add: Let_def)
    done
qed

lemma apply_pauli_x_outer_pair:
  "apply_pauli_x_outer d q i sv =
   pair_outer (\<lambda>a b. b)
              (\<lambda>a b. a) d q i sv"
proof (induction d q i sv rule: apply_pauli_x_outer.induct)
  case (1 d q i sv)
  show ?case
    apply (subst apply_pauli_x_outer.simps)
    apply (subst pair_outer.simps)
    using 1 apply (simp add: Let_def apply_pauli_x_inner_pair split: sum.splits)
    done
qed

subsection \<open>The gates on a register of the right length\<close>

lemma pair_outer_whole:
  assumes "length sv = 2 ^ n" and "q < n"
  shows "\<exists>sv'. pair_outer f g (2 ^ n) q 0 sv = Inr sv' \<and> length sv' = 2 ^ n \<and>
           (\<forall>k<2 ^ n. sv' ! k =
              (if bit k q then g (sv ! (k - 2 ^ q)) (sv ! k)
               else f (sv ! k) (sv ! (k + 2 ^ q))))"
proof -
  have "(2::nat) ^ Suc q dvd 2 ^ n"
    using assms(2) by (intro le_imp_power_dvd) simp
  then have dv: "2 * 2 ^ q dvd (2::nat) ^ n" by simp
  from pair_outer_nth[OF assms(1) dv, of 0 f g] show ?thesis by simp
qed

lemma applyH_total:
  assumes "length (state_vector s) = 2 ^ num_qubits s" and "q < num_qubits s"
    and "num_qubits s < 31"
  shows "\<exists>sv'. applyH q s = Inr (s\<lparr>state_vector := sv'\<rparr>) \<and> length sv' = 2 ^ num_qubits s \<and>
           sum_list (map std_norm sv') = sum_list (map std_norm (state_vector s)) \<and>
           (\<forall>k<2 ^ num_qubits s. sv' ! k =
              (if bit k q
               then (state_vector s ! (k - 2 ^ q) - state_vector s ! k) / complex_of_real (sqrt 2)
               else (state_vector s ! k + state_vector s ! (k + 2 ^ q)) / complex_of_real (sqrt 2)))"
proof -
  let ?f = "\<lambda>a b. (a + b) / complex_of_real (sqrt 2)"
  let ?g = "\<lambda>a b. (a - b) / complex_of_real (sqrt 2)"
  from pair_outer_whole[OF assms(1,2), of ?f ?g]
  obtain sv' where r: "pair_outer ?f ?g (2 ^ num_qubits s) q 0 (state_vector s) = Inr sv'"
    and l: "length sv' = 2 ^ num_qubits s"
    and n: "\<forall>k<2 ^ num_qubits s. sv' ! k =
              (if bit k q then ?g (state_vector s ! (k - 2 ^ q)) (state_vector s ! k)
               else ?f (state_vector s ! k) (state_vector s ! (k + 2 ^ q)))"
    by blast
  have "sum_list (map std_norm sv') = sum_list (map std_norm (state_vector s))"
    by (rule pair_outer_sum[OF _ r]) (rule std_norm_hadamard)
  moreover have "applyH q s = Inr (s\<lparr>state_vector := sv'\<rparr>)"
    using assms(2,3) r by (simp add: applyH_def applyH_outer_pair)
  ultimately show ?thesis using l n by blast
qed

lemma applyX_total:
  assumes "length (state_vector s) = 2 ^ num_qubits s" and "q < num_qubits s"
    and "num_qubits s < 31"
  shows "\<exists>sv'. applyX q s = Inr (s\<lparr>state_vector := sv'\<rparr>) \<and> length sv' = 2 ^ num_qubits s \<and>
           sum_list (map std_norm sv') = sum_list (map std_norm (state_vector s)) \<and>
           (\<forall>k<2 ^ num_qubits s. sv' ! k =
              (if bit k q then state_vector s ! (k - 2 ^ q) else state_vector s ! (k + 2 ^ q)))"
proof -
  let ?f = "\<lambda>a b :: complex. b"
  let ?g = "\<lambda>a b :: complex. a"
  from pair_outer_whole[OF assms(1,2), of ?f ?g]
  obtain sv' where r: "pair_outer ?f ?g (2 ^ num_qubits s) q 0 (state_vector s) = Inr sv'"
    and l: "length sv' = 2 ^ num_qubits s"
    and n: "\<forall>k<2 ^ num_qubits s. sv' ! k =
              (if bit k q then ?g (state_vector s ! (k - 2 ^ q)) (state_vector s ! k)
               else ?f (state_vector s ! k) (state_vector s ! (k + 2 ^ q)))"
    by blast
  have "sum_list (map std_norm sv') = sum_list (map std_norm (state_vector s))"
    by (rule pair_outer_sum[OF _ r]) simp
  moreover have "applyX q s = Inr (s\<lparr>state_vector := sv'\<rparr>)"
    using assms(2,3) r by (simp add: applyX_def applyX_outer_pair)
  ultimately show ?thesis using l n by blast
qed

lemma applyRY_total:
  assumes "length (state_vector s) = 2 ^ num_qubits s" and "q < num_qubits s"
    and "num_qubits s < 31"
  shows "\<exists>sv'. applyRY q theta s = Inr (s\<lparr>state_vector := sv'\<rparr>) \<and>
           length sv' = 2 ^ num_qubits s \<and>
           sum_list (map std_norm sv') = sum_list (map std_norm (state_vector s)) \<and>
           (\<forall>k<2 ^ num_qubits s. sv' ! k =
              (if bit k q
               then complex_of_real (sin (theta / 2)) * state_vector s ! (k - 2 ^ q)
                    + complex_of_real (cos (theta / 2)) * state_vector s ! k
               else complex_of_real (cos (theta / 2)) * state_vector s ! k
                    - complex_of_real (sin (theta / 2)) * state_vector s ! (k + 2 ^ q)))"
proof -
  let ?f = "\<lambda>a b. complex_of_real (cos (theta / 2)) * a - complex_of_real (sin (theta / 2)) * b"
  let ?g = "\<lambda>a b. complex_of_real (sin (theta / 2)) * a + complex_of_real (cos (theta / 2)) * b"
  from pair_outer_whole[OF assms(1,2), of ?f ?g]
  obtain sv' where r: "pair_outer ?f ?g (2 ^ num_qubits s) q 0 (state_vector s) = Inr sv'"
    and l: "length sv' = 2 ^ num_qubits s"
    and n: "\<forall>k<2 ^ num_qubits s. sv' ! k =
              (if bit k q then ?g (state_vector s ! (k - 2 ^ q)) (state_vector s ! k)
               else ?f (state_vector s ! k) (state_vector s ! (k + 2 ^ q)))"
    by blast
  have "sum_list (map std_norm sv') = sum_list (map std_norm (state_vector s))"
    by (rule pair_outer_sum[OF _ r]) (rule std_norm_rotation)
  moreover have "applyRY q theta s = Inr (s\<lparr>state_vector := sv'\<rparr>)"
    using assms(2,3) r by (simp add: applyRY_def applyRY_outer_pair Let_def)
  ultimately show ?thesis using l n by blast
qed


subsection \<open>Probability mass before and after a collapse\<close>




lemma sum_list_map_divide:
  fixes f :: "'a \<Rightarrow> real"
  shows "sum_list (map (\<lambda>x. f x / c) xs) = sum_list (map f xs) / c"
  by (induction xs) (auto simp: add_divide_distrib)


lemma prob0_spec_std_norm:
  "prob0_spec q sv =
   sum_list (map (\<lambda>i. std_norm (sv ! i)) (filter (\<lambda>i. \<not> bit i q) [0..<length sv]))"
  by (simp add: prob0_spec_def std_norm_cmod)

lemma prob0_spec_nonneg: "0 \<le> prob0_spec q sv"
  unfolding prob0_spec_def by (rule sum_list_nonneg) auto


lemma std_norm_zero [simp]: "std_norm 0 = 0"
  by (simp add: std_norm_def)



lemma prob0_spec_project0:
  assumes "0 \<le> p"
  shows "prob0_spec q
           (map (\<lambda>i. if bit i q then 0 else sv ! i / complex_of_real (sqrt p)) [0..<length sv])
         = prob0_spec q sv / p"
proof -
  let ?L = "map (\<lambda>i. if bit i q then 0 else sv ! i / complex_of_real (sqrt p)) [0..<length sv]"
  have len: "length ?L = length sv" by simp
  have eq: "map (\<lambda>i. std_norm (?L ! i)) (filter (\<lambda>i. \<not> bit i q) [0..<length sv])
      = map (\<lambda>i. std_norm (sv ! i) / p) (filter (\<lambda>i. \<not> bit i q) [0..<length sv])"
    using assms by (auto simp: std_norm_divide_real)
  have "prob0_spec q ?L =
        sum_list (map (\<lambda>i. std_norm (?L ! i)) (filter (\<lambda>i. \<not> bit i q) [0..<length sv]))"
    unfolding prob0_spec_std_norm len ..
  also have "\<dots> = sum_list (map (\<lambda>i. std_norm (sv ! i) / p)
                       (filter (\<lambda>i. \<not> bit i q) [0..<length sv]))"
    by (simp only: eq)
  also have "\<dots> = prob0_spec q sv / p"
    by (simp only: sum_list_map_divide prob0_spec_std_norm)
  finally show ?thesis .
qed

lemma prob0_spec_project1:
  "prob0_spec q
     (map (\<lambda>i. if bit i q then sv ! i / complex_of_real (sqrt p) else 0) [0..<length sv]) = 0"
proof -
  let ?L = "map (\<lambda>i. if bit i q then sv ! i / complex_of_real (sqrt p) else 0) [0..<length sv]"
  have len: "length ?L = length sv" by simp
  have eq: "map (\<lambda>i. std_norm (?L ! i)) (filter (\<lambda>i. \<not> bit i q) [0..<length sv])
      = map (\<lambda>i. 0) (filter (\<lambda>i. \<not> bit i q) [0..<length sv])"
    by auto
  have "prob0_spec q ?L =
        sum_list (map (\<lambda>i. std_norm (?L ! i)) (filter (\<lambda>i. \<not> bit i q) [0..<length sv]))"
    unfolding prob0_spec_std_norm len ..
  also have "\<dots> = sum_list (map (\<lambda>i. 0 :: real) (filter (\<lambda>i. \<not> bit i q) [0..<length sv]))"
    by (simp only: eq)
  also have "\<dots> = 0" by simp
  finally show ?thesis .
qed

subsection \<open>The specified measurement: mass after the collapse, and measuring again\<close>

lemma length_measure_spec [simp]: "length (snd (measure_spec q r sv)) = length sv"
  by (simp add: measure_spec_def Let_def)


lemma measure_spec_idem:
  assumes "0 \<le> r1" and "r1 < 1" and "0 \<le> r2" and "r2 < 1"
  shows "measure_spec q r2 (snd (measure_spec q r1 sv)) = measure_spec q r1 sv"
proof (cases "r1 < prob0_spec q sv")
  case True
  let ?p = "prob0_spec q sv"
  let ?L = "map (\<lambda>i. if bit i q then 0 else sv ! i / complex_of_real (sqrt ?p)) [0..<length sv]"
  have first: "measure_spec q r1 sv = (0, ?L)"
    using True by (simp add: measure_spec_def Let_def)
  have pos: "0 < ?p" using True assms(1) by simp
  have p1: "prob0_spec q ?L = 1"
    using prob0_spec_project0[of ?p q sv] pos by simp
  have "map (\<lambda>i. if bit i q then 0 else ?L ! i / complex_of_real (sqrt 1)) [0..<length ?L] = ?L"
    by (rule nth_equalityI) auto
  then have "measure_spec q r2 ?L = (0, ?L)"
    unfolding measure_spec_def Let_def p1 using assms(4) by simp
  then show ?thesis using first by simp
next
  case False
  let ?p = "prob0_spec q sv"
  let ?L = "map (\<lambda>i. if bit i q then sv ! i / complex_of_real (sqrt (1 - ?p)) else 0) [0..<length sv]"
  have first: "measure_spec q r1 sv = (1, ?L)"
    using False by (simp add: measure_spec_def Let_def)
  have p0: "prob0_spec q ?L = 0"
    by (rule prob0_spec_project1)
  have "map (\<lambda>i. if bit i q then ?L ! i / complex_of_real (sqrt (1 - 0)) else 0) [0..<length ?L] = ?L"
    by (rule nth_equalityI) auto
  then have "measure_spec q r2 ?L = (1, ?L)"
    unfolding measure_spec_def Let_def p0 using assms(3) by simp
  then show ?thesis using first by simp
qed

lemma prob0_spec_after:
  assumes "0 \<le> r" and "r < 1"
  shows "prob0_spec q (snd (measure_spec q r sv)) = (if fst (measure_spec q r sv) = 0 then 1 else 0)"
proof (cases "r < prob0_spec q sv")
  case True
  then have pos: "0 < prob0_spec q sv" using assms(1) by simp
  show ?thesis
    using True prob0_spec_project0[of "prob0_spec q sv" q sv] pos
    by (simp add: measure_spec_def Let_def)
next
  case False
  then show ?thesis
    by (simp add: measure_spec_def Let_def prob0_spec_project1)
qed

subsection \<open>Concrete values for the examples\<close>

lemma sqrt_9_25: "sqrt (9 / 25) = 3 / 5"
  by (rule real_sqrt_unique) (simp_all add: power2_eq_square)

lemma prob0_spec_example:
  "prob0_spec 0 [3 / 5, 0, 0, 4 / 5] = 9 / 25"
  by (simp add: prob0_spec_def power2_eq_square bit_0)

subsection \<open>A normalized register with a small \<open>prob0\<close>\<close>



subsection \<open>Construction and the probability vector\<close>

lemma getProbabilities_loop_nth:
  assumes "length sv = 2 ^ n" and "length probs = 2 ^ n"
  shows "\<exists>ps. getProbabilities_loop n i sv probs = Inr ps \<and> length ps = 2 ^ n \<and>
           (\<forall>k<2 ^ n. ps ! k = (if k < i then probs ! k else std_norm (sv ! k)))"
  using assms
proof (induction n i sv probs rule: getProbabilities_loop.induct)
  case (1 n i sv probs)
  show ?case
  proof (cases "i < 2 ^ n")
    case False
    then show ?thesis using "1.prems" by (subst getProbabilities_loop.simps) simp
  next
    case True
    then have il: "i < length sv \<and> i < length probs" using "1.prems" by simp
    from "1.IH"[OF True il] "1.prems"
    obtain ps where "getProbabilities_loop n (i + 1) sv (probs[i := std_norm (sv ! i)]) = Inr ps"
      "length ps = 2 ^ n"
      "\<forall>k<2 ^ n. ps ! k = (if k < i + 1 then probs[i := std_norm (sv ! i)] ! k
                            else std_norm (sv ! k))"
      by auto
    then show ?thesis using True il
      by (subst getProbabilities_loop.simps) (auto simp: nth_list_update less_Suc_eq)
  qed
qed

lemma getProbabilities_map:
  assumes "length (state_vector s) = 2 ^ num_qubits s" and "num_qubits s < 31"
  shows "getProbabilities s = Inr (map std_norm (state_vector s))"
proof -
  from getProbabilities_loop_nth[of "state_vector s" "num_qubits s"
         "replicate (2 ^ num_qubits s) 0" 0] assms(1)
  obtain ps where r: "getProbabilities_loop (num_qubits s) 0 (state_vector s)
                        (replicate (2 ^ num_qubits s) 0) = Inr ps"
    and l: "length ps = 2 ^ num_qubits s"
    and n: "\<forall>k<2 ^ num_qubits s. ps ! k = std_norm (state_vector s ! k)"
    by auto
  have "ps = map std_norm (state_vector s)"
    by (rule nth_equalityI) (use l n assms(1) in auto)
  then show ?thesis using r assms(2) by (simp add: getProbabilities_def)
qed

lemma replicate_first_one:
  "(replicate (2 ^ n) (0::'a::zero))[0 := x] = x # replicate (2 ^ n - 1) 0"
proof -
  have "(2::nat) ^ n = Suc (2 ^ n - 1)" by simp
  then have "replicate (2 ^ n) (0::'a) = 0 # replicate (2 ^ n - 1) 0"
    by (metis replicate_Suc)
  then show ?thesis by simp
qed

lemma initialize_state_loop_nth:
  assumes "d \<le> length amps"
  shows "\<exists>amps'. initialize_state_loop d i amps = Inr amps' \<and> length amps' = length amps \<and>
           (\<forall>k<length amps. amps' ! k = (if i \<le> k \<and> k < d then 0 else amps ! k))"
  using assms
proof (induction d i amps rule: initialize_state_loop.induct)
  case (1 d i amps)
  show ?case
  proof (cases "i < d")
    case False
    then show ?thesis by (subst initialize_state_loop.simps) auto
  next
    case True
    then have il: "i < length amps" using "1.prems" by simp
    from "1.IH"[OF True il] "1.prems"
    obtain amps' where "initialize_state_loop d (i + 1) (amps[i := 0]) = Inr amps'"
      "length amps' = length amps"
      "\<forall>k<length amps. amps' ! k = (if i + 1 \<le> k \<and> k < d then 0 else amps[i := 0] ! k)"
      by auto
    then show ?thesis using True il
      by (subst initialize_state_loop.simps) (auto simp: nth_list_update)
  qed
qed

lemma initialize_state_basis:
  assumes "dimension st = 2 ^ n" and "length (amplitudes st) = 2 ^ n"
  shows "initialize_state st = Inr (st\<lparr>amplitudes := 1 # replicate (2 ^ n - 1) 0\<rparr>)"
proof -
  from initialize_state_loop_nth[of "dimension st" "amplitudes st" 0] assms
  obtain amps' where r: "initialize_state_loop (dimension st) 0 (amplitudes st) = Inr amps'"
    and l: "length amps' = 2 ^ n"
    and n: "\<forall>k<2 ^ n. amps' ! k = 0"
    by auto
  have "amps' = replicate (2 ^ n) 0"
    by (rule nth_equalityI) (use l n in auto)
  then have "amps'[0 := 1] = 1 # replicate (2 ^ n - 1) 0"
    by (simp only: replicate_first_one)
  then show ?thesis using r l by (simp add: initialize_state_def)
qed

subsection \<open>The C gates on a state of the right length\<close>

lemma apply_hadamard_nth:
  assumes "dimension st = 2 ^ n" and "length (amplitudes st) = 2 ^ n"
    and "qubit < n" and "n < 31"
  shows "\<exists>amps'. apply_hadamard st qubit = Inr (st\<lparr>amplitudes := amps'\<rparr>) \<and>
           length amps' = 2 ^ n \<and>
           (\<forall>k<2 ^ n. amps' ! k =
              (if bit k qubit
               then (amplitudes st ! (k - 2 ^ qubit) - amplitudes st ! k) / complex_of_real (sqrt 2)
               else (amplitudes st ! k + amplitudes st ! (k + 2 ^ qubit)) / complex_of_real (sqrt 2)))"
proof -
  let ?f = "\<lambda>a b. (a + b) / complex_of_real (sqrt 2)"
  let ?g = "\<lambda>a b. (a - b) / complex_of_real (sqrt 2)"
  from pair_outer_whole[OF assms(2,3), of ?f ?g]
  obtain amps' where r: "pair_outer ?f ?g (2 ^ n) qubit 0 (amplitudes st) = Inr amps'"
    and l: "length amps' = 2 ^ n"
    and n: "\<forall>k<2 ^ n. amps' ! k =
              (if bit k qubit then ?g (amplitudes st ! (k - 2 ^ qubit)) (amplitudes st ! k)
               else ?f (amplitudes st ! k) (amplitudes st ! (k + 2 ^ qubit)))"
    by blast
  have "apply_hadamard st qubit = Inr (st\<lparr>amplitudes := amps'\<rparr>)"
    using assms(1,3,4) r by (simp add: apply_hadamard_def apply_hadamard_outer_pair)
  with l n show ?thesis by blast
qed

lemma apply_pauli_x_nth:
  assumes "dimension st = 2 ^ n" and "length (amplitudes st) = 2 ^ n"
    and "qubit < n" and "n < 31"
  shows "\<exists>amps'. apply_pauli_x st qubit = Inr (st\<lparr>amplitudes := amps'\<rparr>) \<and>
           length amps' = 2 ^ n \<and>
           (\<forall>k<2 ^ n. amps' ! k =
              (if bit k qubit then amplitudes st ! (k - 2 ^ qubit)
               else amplitudes st ! (k + 2 ^ qubit)))"
proof -
  let ?f = "\<lambda>a b :: complex. b"
  let ?g = "\<lambda>a b :: complex. a"
  from pair_outer_whole[OF assms(2,3), of ?f ?g]
  obtain amps' where r: "pair_outer ?f ?g (2 ^ n) qubit 0 (amplitudes st) = Inr amps'"
    and l: "length amps' = 2 ^ n"
    and n: "\<forall>k<2 ^ n. amps' ! k =
              (if bit k qubit then ?g (amplitudes st ! (k - 2 ^ qubit)) (amplitudes st ! k)
               else ?f (amplitudes st ! k) (amplitudes st ! (k + 2 ^ qubit)))"
    by blast
  have "apply_pauli_x st qubit = Inr (st\<lparr>amplitudes := amps'\<rparr>)"
    using assms(1,3,4) r by (simp add: apply_pauli_x_def apply_pauli_x_outer_pair)
  with l n show ?thesis by blast
qed

subsection \<open>The CNOT loop, entry by entry\<close>

lemma xor_exp_twice: "((i::nat) XOR 2 ^ t) XOR 2 ^ t = i"
  by (simp add: xor.assoc)

lemma bit_xor_exp_other: "c \<noteq> t \<Longrightarrow> bit ((i::nat) XOR 2 ^ t) c \<longleftrightarrow> bit i c"
  by (auto simp: bit_xor_iff bit_exp_iff)

lemma bit_xor_exp_same: "bit ((i::nat) XOR 2 ^ t) t \<longleftrightarrow> \<not> bit i t"
  by (auto simp: bit_xor_iff bit_exp_iff)

lemma xor_exp_clear: "\<not> bit (i::nat) t \<Longrightarrow> i XOR 2 ^ t = i + 2 ^ t"
proof -
  assume a: "\<not> bit i t"
  have "i XOR 2 ^ t = flip_bit t i"
    by (simp add: flip_bit_eq_xor push_bit_eq_mult)
  also have "\<dots> = set_bit t i"
    using a by (simp add: flip_bit_eq_if)
  also have "\<dots> = i + 2 ^ t"
    using a by (simp add: set_bit_eq)
  finally show ?thesis .
qed

lemma xor_exp_greater_iff: "(i::nat) < i XOR 2 ^ t \<longleftrightarrow> \<not> bit i t"
proof
  assume "\<not> bit i t"
  then show "i < i XOR 2 ^ t" by (simp add: xor_exp_clear)
next
  assume l: "i < i XOR 2 ^ t"
  show "\<not> bit i t"
  proof
    assume "bit i t"
    then have "\<not> bit (i XOR 2 ^ t) t" by (simp add: bit_xor_exp_same)
    then have "(i XOR 2 ^ t) XOR 2 ^ t = (i XOR 2 ^ t) + 2 ^ t" by (rule xor_exp_clear)
    then have "i = (i XOR 2 ^ t) + 2 ^ t" by (simp only: xor_exp_twice)
    with l show False by simp
  qed
qed

lemma applyCNOT_loop_nth:
  assumes "length sv = 2 ^ n" and "c < n" and "t < n" and "c \<noteq> t"
  shows "\<exists>sv'. applyCNOT_loop n (2 ^ c) (2 ^ t) i sv = Inr sv' \<and> length sv' = 2 ^ n \<and>
           (\<forall>k<2 ^ n. sv' ! k =
              (if bit k c \<and> i \<le> k \<and> i \<le> k XOR 2 ^ t then sv ! (k XOR 2 ^ t) else sv ! k))"
  using assms(1)
proof (induction "2 ^ n - i" arbitrary: i sv)
  case 0
  then have "\<not> i < 2 ^ n" by simp
  then show ?case using "0.prems"
    by (subst applyCNOT_loop.simps) auto
next
  case (Suc d)
  then have lt: "i < 2 ^ n" by simp
  have d: "d = 2 ^ n - (i + 1)" using Suc.hyps(2) by simp
  show ?case
  proof (cases "bit i c \<and> \<not> bit i t")
    case False
    then have step: "applyCNOT_loop n (2 ^ c) (2 ^ t) i sv
                   = applyCNOT_loop n (2 ^ c) (2 ^ t) (i + 1) sv"
      using lt by (subst applyCNOT_loop.simps) (auto simp: Let_def and_exp_eq_0_iff)
    from Suc.hyps(1)[OF d Suc.prems]
    obtain sv' where r: "applyCNOT_loop n (2 ^ c) (2 ^ t) (i + 1) sv = Inr sv'"
      and l: "length sv' = 2 ^ n"
      and nth: "\<forall>k<2 ^ n. sv' ! k =
              (if bit k c \<and> i + 1 \<le> k \<and> i + 1 \<le> k XOR 2 ^ t then sv ! (k XOR 2 ^ t) else sv ! k)"
      by blast
    have "sv' ! k = (if bit k c \<and> i \<le> k \<and> i \<le> k XOR 2 ^ t then sv ! (k XOR 2 ^ t) else sv ! k)"
      if k: "k < 2 ^ n" for k
    proof -
      have "\<not> (bit k c \<and> i \<le> k XOR 2 ^ t)" if "k = i"
        using that False xor_exp_greater_iff[of i t] xor_exp_neq[of i t] by auto
      moreover have "\<not> (bit k c \<and> i \<le> k)" if e: "k XOR 2 ^ t = i"
      proof -
        have ki: "k = i XOR 2 ^ t" using xor_exp_twice[of k t] by (simp only: e)
        then have "bit k c \<longleftrightarrow> bit i c" using assms(4) by (simp add: bit_xor_exp_other)
        moreover have "i \<le> k \<longleftrightarrow> \<not> bit i t"
          using ki xor_exp_greater_iff[of i t] xor_exp_neq[of i t] by auto
        ultimately show ?thesis using False by auto
      qed
      ultimately have "(bit k c \<and> i + 1 \<le> k \<and> i + 1 \<le> k XOR 2 ^ t)
                     \<longleftrightarrow> (bit k c \<and> i \<le> k \<and> i \<le> k XOR 2 ^ t)"
        by (cases "k = i"; cases "k XOR 2 ^ t = i") auto
      then show ?thesis using nth[rule_format, OF k] by simp
    qed
    with step r l show ?thesis by simp
  next
    case True
    let ?j = "i XOR 2 ^ t"
    let ?sv2 = "sv[i := sv ! ?j, ?j := sv ! i]"
    have jl: "?j < 2 ^ n" using xor_exp_less[OF lt assms(3)] .
    have ij: "i < ?j" using True by (simp add: xor_exp_greater_iff)
    have step: "applyCNOT_loop n (2 ^ c) (2 ^ t) i sv
              = applyCNOT_loop n (2 ^ c) (2 ^ t) (i + 1) ?sv2"
      using lt True jl Suc.prems
      by (subst applyCNOT_loop.simps) (simp add: Let_def and_exp_eq_0_iff)
    have len2: "length ?sv2 = 2 ^ n" using Suc.prems by simp
    from Suc.hyps(1)[OF d len2]
    obtain sv' where r: "applyCNOT_loop n (2 ^ c) (2 ^ t) (i + 1) ?sv2 = Inr sv'"
      and l: "length sv' = 2 ^ n"
      and nth: "\<forall>k<2 ^ n. sv' ! k =
              (if bit k c \<and> i + 1 \<le> k \<and> i + 1 \<le> k XOR 2 ^ t then ?sv2 ! (k XOR 2 ^ t)
               else ?sv2 ! k)"
      by blast
    have "sv' ! k = (if bit k c \<and> i \<le> k \<and> i \<le> k XOR 2 ^ t then sv ! (k XOR 2 ^ t) else sv ! k)"
      if k: "k < 2 ^ n" for k
    proof -
      consider (a) "k = i" | (b) "k = ?j" | (c) "k \<noteq> i" "k \<noteq> ?j" by blast
      then show ?thesis
      proof cases
        case a
        then show ?thesis
          using nth[rule_format, OF k] True ij lt jl Suc.prems by simp
      next
        case b
        have bc: "bit ?j c" using True assms(4) by (simp add: bit_xor_exp_other)
        show ?thesis
          using nth[rule_format, OF k] b bc ij lt jl Suc.prems
          by (simp add: xor_exp_twice)
      next
        case c
        have c2: "k XOR 2 ^ t \<noteq> i" "k XOR 2 ^ t \<noteq> ?j"
          using c xor_exp_twice[of k t] xor_exp_twice[of i t] by metis+
        have kl: "k XOR 2 ^ t < 2 ^ n" using xor_exp_less[OF k assms(3)] .
        have "?sv2 ! k = sv ! k" "?sv2 ! (k XOR 2 ^ t) = sv ! (k XOR 2 ^ t)"
          using c c2 by simp_all
        moreover have "(i + 1 \<le> k \<and> i + 1 \<le> k XOR 2 ^ t) \<longleftrightarrow> (i \<le> k \<and> i \<le> k XOR 2 ^ t)"
          using c c2 by auto
        ultimately show ?thesis using nth[rule_format, OF k] by simp
      qed
    qed
    with step r l show ?thesis by simp
  qed
qed

lemma applyCNOT_nth:
  assumes "length (state_vector s) = 2 ^ num_qubits s" and "c < num_qubits s"
    and "t < num_qubits s" and "c \<noteq> t" and "num_qubits s < 31"
  shows "\<exists>sv'. applyCNOT c t s = Inr (s\<lparr>state_vector := sv'\<rparr>) \<and>
           length sv' = 2 ^ num_qubits s \<and>
           (\<forall>k<2 ^ num_qubits s. sv' ! k =
              (if bit k c then state_vector s ! (k XOR 2 ^ t) else state_vector s ! k))"
proof -
  from applyCNOT_loop_nth[OF assms(1-4), of 0]
  obtain sv' where r: "applyCNOT_loop (num_qubits s) (2 ^ c) (2 ^ t) 0 (state_vector s) = Inr sv'"
    and l: "length sv' = 2 ^ num_qubits s"
    and n: "\<forall>k<2 ^ num_qubits s. sv' ! k =
              (if bit k c then state_vector s ! (k XOR 2 ^ t) else state_vector s ! k)"
    by auto
  have "applyCNOT c t s = Inr (s\<lparr>state_vector := sv'\<rparr>)"
    using assms(2,3,5) r by (simp add: applyCNOT_def Let_def)
  with l n show ?thesis by blast
qed

subsection \<open>Short lists by their entries\<close>

lemma list_of_length_4: "length xs = 4 \<Longrightarrow> xs = [xs ! 0, xs ! 1, xs ! 2, xs ! 3]"
  by (auto simp: length_Suc_conv numeral_eq_Suc)

lemma list_of_length_2: "length xs = 2 \<Longrightarrow> xs = [xs ! 0, xs ! 1]"
  by (auto simp: length_Suc_conv numeral_eq_Suc)

subsection \<open>Rounding to a double\<close>

lemma round_even_near:
  assumes "\<bar>y - of_int m\<bar> < 1 / 2"
  shows "round_even y = m"
proof (cases "of_int m \<le> y")
  case True
  then have f: "\<lfloor>y\<rfloor> = m" using assms by (intro floor_unique) auto
  show ?thesis using assms True by (simp add: round_even_def f Let_def)
next
  case False
  then have f: "\<lfloor>y\<rfloor> = m - 1" using assms by (intro floor_unique) auto
  show ?thesis using assms False by (simp add: round_even_def f Let_def)
qed

lemma fl_zero [simp]: "fl 0 = 0"
  by (simp add: fl_def)

lemma fl_eqI:
  fixes k :: nat
  assumes "2 ^ 52 / 2 ^ k \<le> \<bar>x\<bar>" and "\<bar>x\<bar> < 2 ^ 53 / 2 ^ k"
    and "\<bar>x * 2 ^ k - of_int m\<bar> < 1 / 2"
  shows "fl x = of_int m / 2 ^ k"
proof -
  have "(0::real) < 2 ^ 52 / 2 ^ k" by simp
  then have pos: "0 < \<bar>x\<bar>" using assms(1) by linarith
  then have x0: "x \<noteq> 0" by simp
  have k: "2 powr real k = (2::real) ^ k"
    by (simp add: powr_realpow)
  have "real_of_int (52 - int k) = 52 - real k" by simp
  then have p: "2 powr real_of_int (52 - int k) = (2::real) ^ 52 / 2 ^ k"
    by (simp only: powr_diff k) simp
  have "real_of_int (52 - int k) + 1 = 53 - real k" by simp
  then have p1: "2 powr (real_of_int (52 - int k) + 1) = (2::real) ^ 53 / 2 ^ k"
    by (simp only: powr_diff k) simp
  have "2 powr real_of_int (52 - int k) \<le> \<bar>x\<bar>
        \<and> \<bar>x\<bar> < 2 powr (real_of_int (52 - int k) + 1)"
    using assms(1,2) by (simp only: p p1)
  then have "\<lfloor>log 2 \<bar>x\<bar>\<rfloor> = 52 - int k"
    using floor_log_eq_powr_iff[OF pos, of 2 "52 - int k"] by simp
  then have e: "\<lfloor>log 2 \<bar>x\<bar>\<rfloor> - 52 = - int k" by simp
  have "real_of_int (- int k) = - real k" by simp
  then have q: "2 powr real_of_int (- int k) = 1 / (2::real) ^ k"
    by (simp only: powr_minus k) (simp add: divide_inverse)
  have "round_even (x / (1 / 2 ^ k)) = m"
    using assms(3) by (intro round_even_near) simp
  then show ?thesis
    using x0 by (simp only: fl_def e q Let_def) simp
qed

lemma fl_one [simp]: "fl 1 = 1"
  using fl_eqI[of 52 1 "2 ^ 52"] by simp

subsection \<open>The double-arithmetic loops on a register of two qubits\<close>

lemma applyH_outer_fl_q0:
  "applyH_outer_fl 2 0 0 [a, b, c, d] =
   Inr [complex_div_fl (complex_add_fl a b) (fl (sqrt 2)),
        complex_div_fl (complex_sub_fl a b) (fl (sqrt 2)),
        complex_div_fl (complex_add_fl c d) (fl (sqrt 2)),
        complex_div_fl (complex_sub_fl c d) (fl (sqrt 2))]"
  by (simp add: applyH_outer_fl.simps applyH_inner_fl.simps Let_def)

lemma applyH_outer_fl_q1:
  "applyH_outer_fl 2 1 0 [a, b, c, d] =
   Inr [complex_div_fl (complex_add_fl a c) (fl (sqrt 2)),
        complex_div_fl (complex_add_fl b d) (fl (sqrt 2)),
        complex_div_fl (complex_sub_fl a c) (fl (sqrt 2)),
        complex_div_fl (complex_sub_fl b d) (fl (sqrt 2))]"
  by (simp add: applyH_outer_fl.simps applyH_inner_fl.simps Let_def)

lemma measure_prob0_fl_q1:
  "measure_prob0_fl 2 2 0 [a, b, c, d] 0 =
   Inr (fl (fl (0 + std_norm_fl a) + std_norm_fl b))"
  by (simp add: measure_prob0_fl.simps del: One_nat_def
      add: numeral_2_eq_2[symmetric] numeral_3_eq_3[symmetric])

lemma measure_project0_fl_q1:
  "measure_project0_fl 2 2 p 0 [a, b, c, d] =
   Inr [complex_div_fl a (fl (sqrt p)), complex_div_fl b (fl (sqrt p)), 0, 0]"
  apply (simp add: measure_project0_fl.simps del: One_nat_def
      add: numeral_2_eq_2[symmetric] numeral_3_eq_3[symmetric])
  apply simp
  done

lemma measure_project1_fl_q1:
  "measure_project1_fl 2 2 p 0 [a, b, c, d] =
   Inr [0, 0, complex_div_fl c (fl (sqrt p)), complex_div_fl d (fl (sqrt p))]"
  apply (simp add: measure_project1_fl.simps del: One_nat_def
      add: numeral_2_eq_2[symmetric] numeral_3_eq_3[symmetric])
  apply simp
  done

lemma fl_sqrt_eqI:
  fixes k :: nat
  assumes "2 ^ 52 < m" and "m < 2 ^ 53"
    and "((of_int m - 1 / 2) / 2 ^ k)\<^sup>2 < x" and "x < ((of_int m + 1 / 2) / 2 ^ k)\<^sup>2"
  shows "fl (sqrt x) = of_int m / 2 ^ k"
proof -
  have "2 ^ 52 + 1 \<le> m" "m + 1 \<le> 2 ^ 53" using assms(1,2) by simp_all
  then have "real_of_int (2 ^ 52 + 1) \<le> real_of_int m" "real_of_int (m + 1) \<le> real_of_int (2 ^ 53)"
    by (simp_all only: of_int_le_iff)
  then have m: "(2::real) ^ 52 + 1 \<le> of_int m" "real_of_int m + 1 \<le> 2 ^ 53"
    by simp_all
  have lo0: "0 \<le> (real_of_int m - 1 / 2) / 2 ^ k" using m by simp
  have hi0: "0 \<le> (real_of_int m + 1 / 2) / 2 ^ k" using m by simp
  have "0 \<le> ((real_of_int m - 1 / 2) / 2 ^ k)\<^sup>2" by (rule zero_le_power2)
  then have x0: "0 \<le> x" using assms(3) by linarith
  have lo: "(real_of_int m - 1 / 2) / 2 ^ k < sqrt x"
    using assms(3) by (rule real_less_rsqrt)
  have hi: "sqrt x < (real_of_int m + 1 / 2) / 2 ^ k"
    using assms(4) hi0 by (intro real_less_lsqrt) simp_all
  have s0: "\<bar>sqrt x\<bar> = sqrt x" using x0 by simp
  have a: "2 ^ 52 / 2 ^ k \<le> \<bar>sqrt x\<bar>"
  proof -
    have "(2::real) ^ 52 / 2 ^ k \<le> (real_of_int m - 1 / 2) / 2 ^ k"
      using m by (intro divide_right_mono) simp_all
    then show ?thesis using lo s0 by linarith
  qed
  have b: "\<bar>sqrt x\<bar> < 2 ^ 53 / 2 ^ k"
  proof -
    have "(real_of_int m + 1 / 2) / 2 ^ k \<le> (2::real) ^ 53 / 2 ^ k"
      using m by (intro divide_right_mono) simp_all
    then show ?thesis using hi s0 by linarith
  qed
  have c: "\<bar>sqrt x * 2 ^ k - of_int m\<bar> < 1 / 2"
  proof -
    have "real_of_int m - 1 / 2 < sqrt x * 2 ^ k" using lo by (simp add: field_simps)
    moreover have "sqrt x * 2 ^ k < real_of_int m + 1 / 2" using hi by (simp add: field_simps)
    ultimately show ?thesis by linarith
  qed
  from fl_eqI[OF a b c] show ?thesis .
qed

lemma fl_double:
  fixes k :: nat
  assumes "2 ^ 52 \<le> m" and "m < 2 ^ 53"
  shows "fl (of_int m / 2 ^ k) = of_int m / 2 ^ k"
proof (rule fl_eqI)
  have "real_of_int (2 ^ 52) \<le> real_of_int m" "real_of_int m < real_of_int (2 ^ 53)"
    using assms by (simp_all only: of_int_le_iff of_int_less_iff)
  then have m: "(2::real) ^ 52 \<le> of_int m" "real_of_int m < 2 ^ 53"
    by simp_all
  then have a: "\<bar>real_of_int m / 2 ^ k\<bar> = real_of_int m / 2 ^ k" by simp
  show "2 ^ 52 / 2 ^ k \<le> \<bar>real_of_int m / 2 ^ k\<bar>"
    unfolding a using m by (intro divide_right_mono) simp_all
  show "\<bar>real_of_int m / 2 ^ k\<bar> < 2 ^ 53 / 2 ^ k"
    unfolding a using m by (intro divide_strict_right_mono) simp_all
  show "\<bar>real_of_int m / 2 ^ k * 2 ^ k - real_of_int m\<bar> < 1 / 2" by simp
qed

text \<open>The doubles that the example below runs through.\<close>

lemma fl_sqrt_2: "fl (sqrt 2) = 6369051672525773 / 2 ^ 52"
  using fl_sqrt_eqI[of 6369051672525773 52 2] by (simp add: power2_eq_square)

lemma fl_recip_sqrt_2:
  "fl (1 / (6369051672525773 / 2 ^ 52)) = 6369051672525772 / 2 ^ 53"
  using fl_eqI[of 53 "1 / (6369051672525773 / 2 ^ 52)" 6369051672525772] by simp

lemma fl_half:
  "fl ((6369051672525772 / 2 ^ 53) / (6369051672525773 / 2 ^ 52)) = 9007199254740991 / 2 ^ 54"
  using fl_eqI[of 54 "(6369051672525772 / 2 ^ 53) / (6369051672525773 / 2 ^ 52)" 9007199254740991]
  by simp

lemma fl_half_squared:
  "fl ((9007199254740991 / 2 ^ 54) * (9007199254740991 / 2 ^ 54)) = 9007199254740990 / 2 ^ 55"
  using fl_eqI[of 55 "(9007199254740991 / 2 ^ 54) * (9007199254740991 / 2 ^ 54)" 9007199254740990]
  by simp

lemma fl_sqrt_prob0:
  "fl (sqrt (9007199254740990 / 2 ^ 54)) = 6369051672525772 / 2 ^ 53"
  using fl_sqrt_eqI[of 6369051672525772 53 "9007199254740990 / 2 ^ 54"]
  by (simp add: power2_eq_square)

lemma fl_collapsed:
  "fl ((9007199254740991 / 2 ^ 54) / (6369051672525772 / 2 ^ 53)) = 6369051672525772 / 2 ^ 53"
  using fl_eqI[of 53 "(9007199254740991 / 2 ^ 54) / (6369051672525772 / 2 ^ 53)" 6369051672525772]
  by simp

lemma fl_collapsed_squared:
  "fl ((6369051672525772 / 2 ^ 53) * (6369051672525772 / 2 ^ 53)) = 9007199254740990 / 2 ^ 54"
  using fl_eqI[of 54 "(6369051672525772 / 2 ^ 53) * (6369051672525772 / 2 ^ 53)" 9007199254740990]
  by simp

lemma fl_sum_quarters:
  "fl (9007199254740990 / 2 ^ 55 + 9007199254740990 / 2 ^ 55) = 9007199254740990 / 2 ^ 54"
  using fl_eqI[of 54 "9007199254740990 / 2 ^ 55 + 9007199254740990 / 2 ^ 55" 9007199254740990]
  by simp

lemma fl_sum_halves:
  "fl (9007199254740990 / 2 ^ 54 + 9007199254740990 / 2 ^ 54) = 9007199254740990 / 2 ^ 53"
  using fl_eqI[of 53 "9007199254740990 / 2 ^ 54 + 9007199254740990 / 2 ^ 54" 9007199254740990]
  by simp

lemma complex_zero_parts: "Complex 0 0 = 0"
  by (simp add: Complex_eq_0)

lemma applyH_fl_first:
  fixes h :: real
  defines "h \<equiv> 6369051672525772 / 2 ^ 53"
  shows "applyH_fl 0 \<lparr>num_qubits = 2, state_vector = [1, 0, 0, 0], rng = g\<rparr>
         = Inr \<lparr>num_qubits = 2, state_vector = [Complex h 0, Complex h 0, 0, 0], rng = g\<rparr>"
proof -
  define S :: real where "S = 6369051672525773 / 2 ^ 52"
  have s: "fl (sqrt 2) = S" unfolding S_def by (rule fl_sqrt_2)
  have r: "fl (1 / S) = h" unfolding S_def h_def by (rule fl_recip_sqrt_2)
  have "applyH_outer_fl 2 0 0 [1, 0, 0, 0] = Inr [Complex h 0, Complex h 0, 0, 0]"
    unfolding applyH_outer_fl_q0 complex_div_fl_def complex_add_fl_def complex_sub_fl_def
    by (simp only: one_complex.sel zero_complex.sel complex.sel add_0_right diff_zero
          fl_one fl_zero div_0 s r complex_zero_parts)
  then show ?thesis by (simp add: applyH_fl_def)
qed

lemma applyH_fl_second:
  fixes h q :: real
  defines "h \<equiv> 6369051672525772 / 2 ^ 53" and "q \<equiv> 9007199254740991 / 2 ^ 54"
  shows "applyH_fl 1 \<lparr>num_qubits = 2, state_vector = [Complex h 0, Complex h 0, 0, 0], rng = g\<rparr>
         = Inr \<lparr>num_qubits = 2,
                state_vector = [Complex q 0, Complex q 0, Complex q 0, Complex q 0], rng = g\<rparr>"
proof -
  define S :: real where "S = 6369051672525773 / 2 ^ 52"
  have s: "fl (sqrt 2) = S" unfolding S_def by (rule fl_sqrt_2)
  have hh: "fl h = h" unfolding h_def using fl_double[of 6369051672525772 53] by simp
  have r: "fl (h / S) = q" unfolding S_def h_def q_def by (rule fl_half)
  have "applyH_outer_fl 2 1 0 [Complex h 0, Complex h 0, 0, 0]
        = Inr [Complex q 0, Complex q 0, Complex q 0, Complex q 0]"
    unfolding applyH_outer_fl_q1 complex_div_fl_def complex_add_fl_def complex_sub_fl_def
    by (simp only: complex.sel zero_complex.sel add_0_right diff_zero fl_zero div_0 s hh r)
  then show ?thesis by (simp add: applyH_fl_def)
qed

lemma measure_fl_first:
  fixes h q :: real
  defines "h \<equiv> 6369051672525772 / 2 ^ 53" and "q \<equiv> 9007199254740991 / 2 ^ 54"
  shows "measure_fl 1 \<lparr>num_qubits = 2,
                        state_vector = [Complex q 0, Complex q 0, Complex q 0, Complex q 0],
                        rng = (1 / 4) ## g\<rparr>
         = Inr (0, \<lparr>num_qubits = 2, state_vector = [Complex h 0, Complex h 0, 0, 0], rng = g\<rparr>)"
proof -
  define n :: real where "n = 9007199254740990 / 2 ^ 55"
  define p :: real where "p = 9007199254740990 / 2 ^ 54"
  have sq: "fl (q * q) = n" unfolding q_def n_def by (rule fl_half_squared)
  have nn: "fl n = n" unfolding n_def using fl_double[of 9007199254740990 55] by simp
  have su: "fl (n + n) = p" unfolding n_def p_def by (rule fl_sum_quarters)
  have rt: "fl (sqrt p) = h" unfolding p_def h_def by (rule fl_sqrt_prob0)
  have dv: "fl (q / h) = h" unfolding q_def h_def by (rule fl_collapsed)
  have nrm: "std_norm_fl (Complex q 0) = n"
    unfolding std_norm_fl_def
    by (simp only: complex.sel mult_zero_left fl_zero add_0_right sq nn)
  have p0: "measure_prob0_fl 2 2 0 [Complex q 0, Complex q 0, Complex q 0, Complex q 0] 0 = Inr p"
    unfolding measure_prob0_fl_q1 nrm
    by (simp only: add_0 nn su)
  have pr: "measure_project0_fl 2 2 p 0 [Complex q 0, Complex q 0, Complex q 0, Complex q 0]
            = Inr [Complex h 0, Complex h 0, 0, 0]"
    unfolding measure_project0_fl_q1 complex_div_fl_def
    by (simp only: complex.sel div_0 fl_zero rt dv)
  have lt: "1 / 4 < p" unfolding p_def by simp
  show ?thesis using lt by (simp add: measure_fl_def p0 pr)
qed

lemma measure_fl_second:
  fixes h :: real
  defines "h \<equiv> 6369051672525772 / 2 ^ 53"
  shows "measure_fl 1 \<lparr>num_qubits = 2, state_vector = [Complex h 0, Complex h 0, 0, 0],
                        rng = (1 - 1 / 2 ^ 53) ## g\<rparr>
         = Inr (1, \<lparr>num_qubits = 2, state_vector = [0, 0, 0, 0], rng = g\<rparr>)"
proof -
  define p :: real where "p = 9007199254740990 / 2 ^ 54"
  define p2 :: real where "p2 = 9007199254740990 / 2 ^ 53"
  have sq: "fl (h * h) = p" unfolding h_def p_def by (rule fl_collapsed_squared)
  have pp: "fl p = p" unfolding p_def using fl_double[of 9007199254740990 54] by simp
  have su: "fl (p + p) = p2" unfolding p_def p2_def by (rule fl_sum_halves)
  have nrm: "std_norm_fl (Complex h 0) = p"
    unfolding std_norm_fl_def
    by (simp only: complex.sel mult_zero_left fl_zero add_0_right sq pp)
  have p0: "measure_prob0_fl 2 2 0 [Complex h 0, Complex h 0, 0, 0] 0 = Inr p2"
    unfolding measure_prob0_fl_q1 nrm
    by (simp only: add_0 pp su)
  have pr: "measure_project1_fl 2 2 d 0 [Complex h 0, Complex h 0, 0, 0] = Inr [0, 0, 0, 0]" for d
    unfolding measure_project1_fl_q1 complex_div_fl_def
    by (simp only: zero_complex.sel div_0 fl_zero complex_zero_parts)
  have ge: "\<not> 1 - 1 / 2 ^ 53 < p2" unfolding p2_def by simp
  show ?thesis using ge by (simp add: measure_fl_def p0 pr)
qed

lemma sqrt_16_25: "sqrt (16 / 25) = 4 / 5"
  by (rule real_sqrt_unique) (simp_all add: power2_eq_square)

section \<open>The claims\<close>

text \<open>
  C1. On a 2-qubit register as the constructor leaves it, Hadamard on qubit 0
  followed by CNOT with control 0 and target 1 (the method \<open>createBellState\<close>) yields
  amplitude \<open>1/\<surd>2\<close> at the basis indices 0 and 3 and amplitude 0 at the indices 1 and 2,
  each within \<open>10\<^sup>-\<^sup>9\<close>.
\<close>

theorem createBellState_amplitudes:
  "\<exists>s s'. QuantumSimulator 2 g = Inr s \<and> createBellState s = Inr s'
     \<and> length (state_vector s') = 4
     \<and> cmod (state_vector s' ! 0 - complex_of_real (1 / sqrt 2)) \<le> 1 / 10 ^ 9
     \<and> cmod (state_vector s' ! 3 - complex_of_real (1 / sqrt 2)) \<le> 1 / 10 ^ 9
     \<and> cmod (state_vector s' ! 1 - 0) \<le> 1 / 10 ^ 9
     \<and> cmod (state_vector s' ! 2 - 0) \<le> 1 / 10 ^ 9"
proof -
  have c: "QuantumSimulator 2 g = Inr \<lparr>num_qubits = 2, state_vector = [1, 0, 0, 0], rng = g\<rparr>"
    by (simp add: QuantumSimulator_def eval_nat_numeral)
  have h: "applyH_outer 2 0 0 [1, 0, 0, 0]
           = Inr [1 / complex_of_real (sqrt 2), 1 / complex_of_real (sqrt 2), 0, 0]"
    by (simp add: applyH_outer.simps applyH_inner.simps Let_def)
  have x: "applyCNOT_loop 2 (Suc 0) 2 0
             [1 / complex_of_real (sqrt 2), 1 / complex_of_real (sqrt 2), 0, 0]
           = Inr [1 / complex_of_real (sqrt 2), 0, 0, 1 / complex_of_real (sqrt 2)]"
    apply (simp add: applyCNOT_loop.simps Let_def del: One_nat_def
        add: numeral_2_eq_2[symmetric] numeral_3_eq_3[symmetric])
    apply simp
    done
  have b: "createBellState \<lparr>num_qubits = 2, state_vector = [1, 0, 0, 0], rng = g\<rparr>
           = Inr \<lparr>num_qubits = 2,
                  state_vector = [1 / complex_of_real (sqrt 2), 0, 0, 1 / complex_of_real (sqrt 2)],
                  rng = g\<rparr>"
    by (simp add: createBellState_def applyH_def applyCNOT_def h x)
  show ?thesis
    by (simp add: c b)
qed

text \<open>
  C2. For every register and every in-range qubit, \<open>measure\<close> computes \<open>prob0\<close> as the
  sum of \<open>|amplitude\<^sub>i|\<^sup>2\<close> over the basis indices whose bit is 0 and draws one \<open>r\<close>
  from \<open>[0, 1)\<close>. With \<open>r < prob0\<close> it returns 0, zeroes every amplitude whose bit is 1
  and divides the others by \<open>\<surd>prob0\<close>; otherwise it returns 1, zeroes every amplitude
  whose bit is 0 and divides the others by \<open>\<surd>(1 - prob0)\<close>. That is: the method
  returns what \<open>measure_spec\<close> says for the drawn number, and leaves the generator one
  draw further.
\<close>

theorem measure_meets_specification:
  assumes "length (state_vector s) = 2 ^ num_qubits s" and "num_qubits s \<le> 30"
    and "q < num_qubits s" and "0 \<le> shd (rng s)" and "shd (rng s) < 1"
  shows "measure' q s =
         Inr (fst (measure_spec q (shd (rng s)) (state_vector s)),
              s\<lparr>state_vector := snd (measure_spec q (shd (rng s)) (state_vector s)),
                rng := stl (rng s)\<rparr>)"
  using assms by (intro measure_eq_spec) simp_all

theorem measure_meets_specification_witness:
  "length (state_vector \<lparr>num_qubits = 2, state_vector = [3 / 5, 0, 0, 4 / 5],
                         rng = (1 / 4) ## sconst 0\<rparr>) = 2 ^ 2
   \<and> (2::nat) \<le> 30 \<and> (0::nat) < 2 \<and> (0::real) \<le> 1 / 4 \<and> (1 / 4 :: real) < 1
   \<and> measure' 0 \<lparr>num_qubits = 2, state_vector = [3 / 5, 0, 0, 4 / 5], rng = (1 / 4) ## sconst 0\<rparr>
       = Inr (0, \<lparr>num_qubits = 2, state_vector = [1, 0, 0, 0], rng = sconst 0\<rparr>)"
  using measure_meets_specification
    [of "\<lparr>num_qubits = 2, state_vector = [3 / 5, 0, 0, 4 / 5], rng = (1 / 4) ## sconst 0\<rparr>" 0]
  by (simp add: measure_spec_def prob0_spec_example sqrt_9_25 bit_0 Let_def)



text \<open>
  C4 as stated does not hold: nothing in the code rejects a CNOT whose control is its
  target. The C++ \<open>applyCNOT(0, 0)\<close> returns normally with the register it was given;
  the C \<open>apply_gate\<close> with a \<open>GATE_CNOT\<close> whose control and target are both 0 returns
  normally too, and the line it writes says that the gate type is not implemented.
\<close>

theorem applyCNOT_same_qubit_counterexample:
  "applyCNOT 0 0 \<lparr>num_qubits = 2, state_vector = [0, 1, 0, 0], rng = sconst 0\<rparr>
     = Inr \<lparr>num_qubits = 2, state_vector = [0, 1, 0, 0], rng = sconst 0\<rparr>
   \<and> \<not> isl (applyCNOT 0 0 \<lparr>num_qubits = 2, state_vector = [0, 1, 0, 0], rng = sconst 0\<rparr>)
   \<and> apply_gate \<lparr>QuantumState.num_qubits = 2, dimension = 4, amplitudes = [0, 1, 0, 0]\<rparr>
                 \<lparr>type = GATE_CNOT, target = 0, control = 0, angle = 0\<rparr>
     = Inr (\<lparr>QuantumState.num_qubits = 2, dimension = 4, amplitudes = [0, 1, 0, 0]\<rparr>,
            [''Gate type 4 not implemented''])"
  by (simp add: applyCNOT_def applyCNOT_loop_same_mask apply_gate_def char_of_def bit_0)

text \<open>
  C4, as the code has it. A CNOT whose control index equals its target index raises
  no error and leaves every amplitude unchanged: the C++ \<open>applyCNOT(c, c)\<close> returns
  normally with the same amplitudes, and the C \<open>apply_gate\<close>, which has no case for
  \<open>GATE_CNOT\<close>, returns the state as it was and writes the line
  \<open>Gate type 4 not implemented\<close>, whatever the control and the target are.
\<close>

theorem cnot_same_qubit_returns_unchanged:
  "(c < 31 \<and> num_qubits s < 31 \<longrightarrow>
      (\<exists>s'. applyCNOT c c s = Inr s' \<and> state_vector s' = state_vector s))
   \<and> (type gate = GATE_CNOT \<longrightarrow>
      apply_gate st gate = Inr (st, [''Gate type 4 not implemented'']))"
  by (simp add: applyCNOT_def Let_def applyCNOT_loop_same_mask apply_gate_def char_of_def bit_0)

theorem cnot_same_qubit_returns_unchanged_witness:
  "(1::nat) < 31 \<and> num_qubits \<lparr>num_qubits = 2, state_vector = [0, 0, 1, 0], rng = sconst 0\<rparr> < 31
   \<and> (\<exists>s'. applyCNOT 1 1 \<lparr>num_qubits = 2, state_vector = [0, 0, 1, 0], rng = sconst 0\<rparr> = Inr s'
            \<and> state_vector s' = [0, 0, 1, 0])
   \<and> type \<lparr>type = GATE_CNOT, target = 1, control = 1, angle = 0\<rparr> = GATE_CNOT
   \<and> apply_gate \<lparr>QuantumState.num_qubits = 2, dimension = 4, amplitudes = [0, 0, 1, 0]\<rparr>
                 \<lparr>type = GATE_CNOT, target = 1, control = 1, angle = 0\<rparr>
      = Inr (\<lparr>QuantumState.num_qubits = 2, dimension = 4, amplitudes = [0, 0, 1, 0]\<rparr>,
             [''Gate type 4 not implemented''])"
  using cnot_same_qubit_returns_unchanged
    [of 1 "\<lparr>num_qubits = 2, state_vector = [0, 0, 1, 0], rng = sconst 0\<rparr>"
        "\<lparr>type = GATE_CNOT, target = 1, control = 1, angle = 0\<rparr>"
        "\<lparr>QuantumState.num_qubits = 2, dimension = 4, amplitudes = [0, 0, 1, 0]\<rparr>"]
  by simp

text \<open>
  C5 as stated does not hold: a qubit count of 0 is accepted. \<open>create_state(0)\<close>, with
  both allocations succeeding, returns a state of dimension 1 and has allocated one
  amplitude; the C++ constructor called with 0 builds a register of one amplitude.
\<close>

theorem create_state_zero_counterexample:
  "create_state 0 True True
     = Inr (Inr \<lparr>QuantumState.num_qubits = 0, dimension = 1, amplitudes = [0]\<rparr>,
            [Malloc_state, Calloc_amplitudes 1])
   \<and> QuantumSimulator 0 (sconst 0)
     = Inr \<lparr>num_qubits = 0, state_vector = [1], rng = sconst 0\<rparr>"
  by (simp add: create_state_def MAX_QUBITS_def QuantumSimulator_def)

text \<open>
  C5, as the code has it. \<open>create_state\<close> with a qubit count above \<open>MAX_QUBITS\<close>, so with
  \<open>MAX_QUBITS + 1\<close>, returns \<open>NULL\<close> through the too-many-qubits branch and calls no
  allocator before it does, whatever the allocator would have answered. With the
  count 0 it succeeds once both allocations do and holds one amplitude, and the C++
  constructor, which has no capacity check, builds a register of one amplitude.
\<close>

theorem create_state_capacity:
  "(MAX_QUBITS < n \<longrightarrow> create_state n malloc_ok calloc_ok = Inr (Inl TooManyQubits, []))
   \<and> create_state (MAX_QUBITS + 1) malloc_ok calloc_ok = Inr (Inl TooManyQubits, [])
   \<and> create_state 0 True True
       = Inr (Inr \<lparr>QuantumState.num_qubits = 0, dimension = 1, amplitudes = [0]\<rparr>,
              [Malloc_state, Calloc_amplitudes 1])
   \<and> QuantumSimulator 0 g = Inr \<lparr>num_qubits = 0, state_vector = [1], rng = g\<rparr>"
  by (simp add: create_state_def MAX_QUBITS_def QuantumSimulator_def)

theorem create_state_capacity_witness:
  "MAX_QUBITS < 40 \<and> create_state 40 True False = Inr (Inl TooManyQubits, [])
   \<and> create_state 33 True True = Inr (Inl TooManyQubits, [])"
  using create_state_capacity[of 40 True False "sconst 0"]
        create_state_capacity[of 33 True True "sconst 0"]
  by (simp add: MAX_QUBITS_def)

text \<open>
  C6 as stated does not hold: \<open>apply_gate\<close> implements two of the gate kinds. On the
  one-qubit state with amplitudes \<open>[0, 1]\<close> a \<open>GATE_Z\<close> on qubit 0 leaves the amplitude
  at index 1 at \<open>1\<close>, where Pauli-Z would make it \<open>-1\<close>; what the call does is write the
  line \<open>Gate type 3 not implemented\<close>.
\<close>

theorem apply_gate_pauli_z_counterexample:
  "apply_gate \<lparr>QuantumState.num_qubits = 1, dimension = 2, amplitudes = [0, 1]\<rparr>
              \<lparr>type = GATE_Z, target = 0, control = - 1, angle = 0\<rparr>
     = Inr (\<lparr>QuantumState.num_qubits = 1, dimension = 2, amplitudes = [0, 1]\<rparr>,
            [''Gate type 3 not implemented''])
   \<and> [0, 1 :: complex] ! 1 \<noteq> - ([0, 1] ! 1)"
  by (simp add: apply_gate_def char_of_def bit_0)

text \<open>
  C6, as the code has it. Of the gate kinds, four are performed. Hadamard replaces
  every pair \<open>(a, b)\<close> of amplitudes that differ in the target bit by
  \<open>((a + b)/\<surd>2, (a - b)/\<surd>2)\<close> and Pauli-X exchanges the two amplitudes of every such
  pair, in the C++ methods \<open>applyH\<close> and \<open>applyX\<close> and in the C \<open>apply_gate\<close>. CNOT, in
  the C++ method \<open>applyCNOT\<close> with distinct control and target, exchanges the amplitude
  at every index whose control bit is set with the amplitude at the index that differs
  in the target bit, and leaves the others. The rotation about Y, in the C++ method
  \<open>applyRY\<close>, replaces every pair by
  \<open>(cos(\<theta>/2) a - sin(\<theta>/2) b, sin(\<theta>/2) a + cos(\<theta>/2) b)\<close>. Pauli-Y, Pauli-Z and Swap
  are performed nowhere: the class has no method for them, and \<open>apply_gate\<close>, the one
  function that dispatches on the gate type, leaves the state as it is for every type
  other than \<open>GATE_H\<close> and \<open>GATE_X\<close> and writes one line saying that the gate type is
  not implemented.
\<close>

theorem gate_kinds_as_implemented:
  assumes "length (state_vector s) = 2 ^ num_qubits s" and "num_qubits s \<le> 30"
    and "dimension st = 2 ^ n" and "length (amplitudes st) = 2 ^ n" and "n \<le> 30"
  shows "(q < num_qubits s \<longrightarrow>
            (\<exists>sv'. applyH q s = Inr (s\<lparr>state_vector := sv'\<rparr>)
               \<and> length sv' = 2 ^ num_qubits s
               \<and> (\<forall>k<2 ^ num_qubits s. sv' ! k =
                    (if bit k q
                     then (state_vector s ! (k - 2 ^ q) - state_vector s ! k)
                          / complex_of_real (sqrt 2)
                     else (state_vector s ! k + state_vector s ! (k + 2 ^ q))
                          / complex_of_real (sqrt 2)))))
       \<and> (type gate = GATE_H \<and> target gate < n \<longrightarrow>
            (\<exists>amps'. apply_gate st gate = Inr (st\<lparr>amplitudes := amps'\<rparr>, [])
               \<and> length amps' = 2 ^ n
               \<and> (\<forall>k<2 ^ n. amps' ! k =
                    (if bit k (target gate)
                     then (amplitudes st ! (k - 2 ^ target gate) - amplitudes st ! k)
                          / complex_of_real (sqrt 2)
                     else (amplitudes st ! k + amplitudes st ! (k + 2 ^ target gate))
                          / complex_of_real (sqrt 2)))))
       \<and> (q < num_qubits s \<longrightarrow>
            (\<exists>sv'. applyX q s = Inr (s\<lparr>state_vector := sv'\<rparr>)
               \<and> length sv' = 2 ^ num_qubits s
               \<and> (\<forall>k<2 ^ num_qubits s. sv' ! k =
                    (if bit k q then state_vector s ! (k - 2 ^ q)
                     else state_vector s ! (k + 2 ^ q)))))
       \<and> (type gate = GATE_X \<and> target gate < n \<longrightarrow>
            (\<exists>amps'. apply_gate st gate = Inr (st\<lparr>amplitudes := amps'\<rparr>, [])
               \<and> length amps' = 2 ^ n
               \<and> (\<forall>k<2 ^ n. amps' ! k =
                    (if bit k (target gate) then amplitudes st ! (k - 2 ^ target gate)
                     else amplitudes st ! (k + 2 ^ target gate)))))
       \<and> (c < num_qubits s \<and> t < num_qubits s \<and> c \<noteq> t \<longrightarrow>
            (\<exists>sv'. applyCNOT c t s = Inr (s\<lparr>state_vector := sv'\<rparr>)
               \<and> length sv' = 2 ^ num_qubits s
               \<and> (\<forall>k<2 ^ num_qubits s. sv' ! k =
                    (if bit k c then state_vector s ! (k XOR 2 ^ t) else state_vector s ! k))))
       \<and> (q < num_qubits s \<longrightarrow>
            (\<exists>sv'. applyRY q theta s = Inr (s\<lparr>state_vector := sv'\<rparr>)
               \<and> length sv' = 2 ^ num_qubits s
               \<and> (\<forall>k<2 ^ num_qubits s. sv' ! k =
                    (if bit k q
                     then complex_of_real (sin (theta / 2)) * state_vector s ! (k - 2 ^ q)
                          + complex_of_real (cos (theta / 2)) * state_vector s ! k
                     else complex_of_real (cos (theta / 2)) * state_vector s ! k
                          - complex_of_real (sin (theta / 2)) * state_vector s ! (k + 2 ^ q)))))
       \<and> (type gate \<noteq> GATE_H \<and> type gate \<noteq> GATE_X \<longrightarrow>
            apply_gate st gate =
              Inr (st, [''Gate type '' @ [char_of (48 + GateType_value (type gate))]
                        @ '' not implemented'']))"
proof -
  have ns: "num_qubits s < 31" and n: "n < 31" using assms(2,5) by simp_all
  have 1: "\<exists>sv'. applyH q s = Inr (s\<lparr>state_vector := sv'\<rparr>)
               \<and> length sv' = 2 ^ num_qubits s
               \<and> (\<forall>k<2 ^ num_qubits s. sv' ! k =
                    (if bit k q
                     then (state_vector s ! (k - 2 ^ q) - state_vector s ! k)
                          / complex_of_real (sqrt 2)
                     else (state_vector s ! k + state_vector s ! (k + 2 ^ q))
                          / complex_of_real (sqrt 2)))"
    if "q < num_qubits s"
    using applyH_total[OF assms(1) that ns] by blast
  have 2: "\<exists>amps'. apply_gate st gate = Inr (st\<lparr>amplitudes := amps'\<rparr>, [])
               \<and> length amps' = 2 ^ n
               \<and> (\<forall>k<2 ^ n. amps' ! k =
                    (if bit k (target gate)
                     then (amplitudes st ! (k - 2 ^ target gate) - amplitudes st ! k)
                          / complex_of_real (sqrt 2)
                     else (amplitudes st ! k + amplitudes st ! (k + 2 ^ target gate))
                          / complex_of_real (sqrt 2)))"
    if "type gate = GATE_H \<and> target gate < n"
    using apply_hadamard_nth[OF assms(3,4) _ n, of "target gate"] that
    by (auto simp: apply_gate_def)
  have 3: "\<exists>sv'. applyX q s = Inr (s\<lparr>state_vector := sv'\<rparr>)
               \<and> length sv' = 2 ^ num_qubits s
               \<and> (\<forall>k<2 ^ num_qubits s. sv' ! k =
                    (if bit k q then state_vector s ! (k - 2 ^ q)
                     else state_vector s ! (k + 2 ^ q)))"
    if "q < num_qubits s"
    using applyX_total[OF assms(1) that ns] by blast
  have 4: "\<exists>amps'. apply_gate st gate = Inr (st\<lparr>amplitudes := amps'\<rparr>, [])
               \<and> length amps' = 2 ^ n
               \<and> (\<forall>k<2 ^ n. amps' ! k =
                    (if bit k (target gate) then amplitudes st ! (k - 2 ^ target gate)
                     else amplitudes st ! (k + 2 ^ target gate)))"
    if "type gate = GATE_X \<and> target gate < n"
    using apply_pauli_x_nth[OF assms(3,4) _ n, of "target gate"] that
    by (auto simp: apply_gate_def)
  have 5: "\<exists>sv'. applyCNOT c t s = Inr (s\<lparr>state_vector := sv'\<rparr>)
               \<and> length sv' = 2 ^ num_qubits s
               \<and> (\<forall>k<2 ^ num_qubits s. sv' ! k =
                    (if bit k c then state_vector s ! (k XOR 2 ^ t) else state_vector s ! k))"
    if "c < num_qubits s \<and> t < num_qubits s \<and> c \<noteq> t"
    using applyCNOT_nth[OF assms(1) _ _ _ ns, of c t] that by blast
  have 6: "\<exists>sv'. applyRY q theta s = Inr (s\<lparr>state_vector := sv'\<rparr>)
               \<and> length sv' = 2 ^ num_qubits s
               \<and> (\<forall>k<2 ^ num_qubits s. sv' ! k =
                    (if bit k q
                     then complex_of_real (sin (theta / 2)) * state_vector s ! (k - 2 ^ q)
                          + complex_of_real (cos (theta / 2)) * state_vector s ! k
                     else complex_of_real (cos (theta / 2)) * state_vector s ! k
                          - complex_of_real (sin (theta / 2)) * state_vector s ! (k + 2 ^ q)))"
    if "q < num_qubits s"
    using applyRY_total[OF assms(1) that ns, of theta] by blast
  have 7: "apply_gate st gate =
              Inr (st, [''Gate type '' @ [char_of (48 + GateType_value (type gate))]
                        @ '' not implemented''])"
    if "type gate \<noteq> GATE_H \<and> type gate \<noteq> GATE_X"
    using that by (cases "type gate") (simp_all add: apply_gate_def)
  from 1 2 3 4 5 6 7 show ?thesis by blast
qed

theorem gate_kinds_as_implemented_witness:
  "length (state_vector \<lparr>num_qubits = 2, state_vector = [3 / 5, 0, 0, 4 / 5], rng = sconst 0\<rparr>)
     = 2 ^ 2
   \<and> (2::nat) \<le> 30
   \<and> dimension \<lparr>QuantumState.num_qubits = 1, dimension = 2, amplitudes = [0, 1]\<rparr> = 2 ^ 1
   \<and> length (amplitudes \<lparr>QuantumState.num_qubits = 1, dimension = 2, amplitudes = [0, 1]\<rparr>) = 2 ^ 1
   \<and> (1::nat) \<le> 30
   \<and> (0::nat) < 2 \<and> (1::nat) < 2 \<and> (0::nat) \<noteq> 1
   \<and> target \<lparr>type = GATE_H, target = 0, control = - 1, angle = 0\<rparr> < 1
   \<and> applyH 0 \<lparr>num_qubits = 2, state_vector = [3 / 5, 0, 0, 4 / 5], rng = sconst 0\<rparr>
       = Inr \<lparr>num_qubits = 2,
              state_vector = [(3 / 5) / complex_of_real (sqrt 2), (3 / 5) / complex_of_real (sqrt 2),
                              (4 / 5) / complex_of_real (sqrt 2), - (4 / 5) / complex_of_real (sqrt 2)],
              rng = sconst 0\<rparr>
   \<and> apply_gate \<lparr>QuantumState.num_qubits = 1, dimension = 2, amplitudes = [0, 1]\<rparr>
                 \<lparr>type = GATE_H, target = 0, control = - 1, angle = 0\<rparr>
       = Inr (\<lparr>QuantumState.num_qubits = 1, dimension = 2,
                amplitudes = [1 / complex_of_real (sqrt 2), - 1 / complex_of_real (sqrt 2)]\<rparr>, [])
   \<and> applyX 0 \<lparr>num_qubits = 2, state_vector = [3 / 5, 0, 0, 4 / 5], rng = sconst 0\<rparr>
       = Inr \<lparr>num_qubits = 2, state_vector = [0, 3 / 5, 4 / 5, 0], rng = sconst 0\<rparr>
   \<and> apply_gate \<lparr>QuantumState.num_qubits = 1, dimension = 2, amplitudes = [0, 1]\<rparr>
                 \<lparr>type = GATE_X, target = 0, control = - 1, angle = 0\<rparr>
       = Inr (\<lparr>QuantumState.num_qubits = 1, dimension = 2, amplitudes = [1, 0]\<rparr>, [])
   \<and> applyCNOT 0 1 \<lparr>num_qubits = 2, state_vector = [3 / 5, 0, 0, 4 / 5], rng = sconst 0\<rparr>
       = Inr \<lparr>num_qubits = 2, state_vector = [3 / 5, 4 / 5, 0, 0], rng = sconst 0\<rparr>
   \<and> applyRY 0 pi \<lparr>num_qubits = 2, state_vector = [3 / 5, 0, 0, 4 / 5], rng = sconst 0\<rparr>
       = Inr \<lparr>num_qubits = 2, state_vector = [0, 3 / 5, - (4 / 5), 0], rng = sconst 0\<rparr>
   \<and> apply_gate \<lparr>QuantumState.num_qubits = 1, dimension = 2, amplitudes = [0, 1]\<rparr>
                 \<lparr>type = GATE_SWAP, target = 0, control = - 1, angle = 0\<rparr>
       = Inr (\<lparr>QuantumState.num_qubits = 1, dimension = 2, amplitudes = [0, 1]\<rparr>,
              [''Gate type 5 not implemented''])"
proof -
  let ?s = "\<lparr>num_qubits = 2, state_vector = [3 / 5, 0, 0, 4 / 5], rng = sconst 0\<rparr>"
  let ?st = "\<lparr>QuantumState.num_qubits = 1, dimension = 2, amplitudes = [0, 1]\<rparr>"
  have a: "length (state_vector ?s) = 2 ^ num_qubits ?s" and b: "num_qubits ?s \<le> 30"
    and d: "dimension ?st = 2 ^ 1" and l: "length (amplitudes ?st) = 2 ^ 1"
    and c: "(1::nat) \<le> 30" by simp_all
  note w = gate_kinds_as_implemented[OF a b d l c, of 0 _ 0 1 pi]
  have x1: "(1::nat) XOR 2 = 3" "(3::nat) XOR 2 = 1" "(2::nat) XOR 2 = 0" by simp_all
  from w[of "\<lparr>type = GATE_H, target = 0, control = - 1, angle = 0\<rparr>"]
  obtain h ah x cn ry where
    h: "applyH 0 ?s = Inr (?s\<lparr>state_vector := h\<rparr>)" "length h = 4"
       "\<forall>k<4. h ! k = (if bit k 0 then ([3 / 5, 0, 0, 4 / 5] ! (k - 1) - [3 / 5, 0, 0, 4 / 5] ! k)
                                       / complex_of_real (sqrt 2)
                        else ([3 / 5, 0, 0, 4 / 5] ! k + [3 / 5, 0, 0, 4 / 5] ! (k + 1))
                                       / complex_of_real (sqrt 2))"
    and ah: "apply_gate ?st \<lparr>type = GATE_H, target = 0, control = - 1, angle = 0\<rparr>
               = Inr (?st\<lparr>amplitudes := ah\<rparr>, [])" "length ah = 2"
       "\<forall>k<2. ah ! k = (if bit k 0 then ([0, 1] ! (k - 1) - [0, 1] ! k) / complex_of_real (sqrt 2)
                        else ([0, 1] ! k + [0, 1] ! (k + 1)) / complex_of_real (sqrt 2))"
    and x: "applyX 0 ?s = Inr (?s\<lparr>state_vector := x\<rparr>)" "length x = 4"
       "\<forall>k<4. x ! k = (if bit k 0 then [3 / 5, 0, 0, 4 / 5] ! (k - 1)
                        else [3 / 5, 0, 0, 4 / 5] ! (k + 1))"
    and cn: "applyCNOT 0 1 ?s = Inr (?s\<lparr>state_vector := cn\<rparr>)" "length cn = 4"
       "\<forall>k<4. cn ! k = (if bit k 0 then [3 / 5, 0, 0, 4 / 5] ! (k XOR 2)
                        else [3 / 5, 0, 0, 4 / 5] ! k)"
    and ry: "applyRY 0 pi ?s = Inr (?s\<lparr>state_vector := ry\<rparr>)" "length ry = 4"
       "\<forall>k<4. ry ! k = (if bit k 0 then [3 / 5, 0, 0, 4 / 5] ! (k - 1)
                        else - [3 / 5, 0, 0, 4 / 5] ! (k + 1))"
    by auto
  have hv: "h = [(3 / 5) / complex_of_real (sqrt 2), (3 / 5) / complex_of_real (sqrt 2),
                 (4 / 5) / complex_of_real (sqrt 2), - (4 / 5) / complex_of_real (sqrt 2)]"
    using h(3)[rule_format, of 0] h(3)[rule_format, of 1] h(3)[rule_format, of 2]
      h(3)[rule_format, of 3]
    by (subst list_of_length_4[OF h(2)]) (simp add: bit_0)
  have ahv: "ah = [1 / complex_of_real (sqrt 2), - 1 / complex_of_real (sqrt 2)]"
    using ah(3)[rule_format, of 0] ah(3)[rule_format, of 1]
    by (subst list_of_length_2[OF ah(2)]) (simp add: bit_0)
  have xv: "x = [0, 3 / 5, 4 / 5, 0]"
    using x(3)[rule_format, of 0] x(3)[rule_format, of 1] x(3)[rule_format, of 2]
      x(3)[rule_format, of 3]
    by (subst list_of_length_4[OF x(2)]) (simp add: bit_0)
  have cnv: "cn = [3 / 5, 4 / 5, 0, 0]"
    using cn(3)[rule_format, of 0] cn(3)[rule_format, of 1] cn(3)[rule_format, of 2]
      cn(3)[rule_format, of 3]
    by (subst list_of_length_4[OF cn(2)]) (simp add: bit_0 x1)
  have ryv: "ry = [0, 3 / 5, - (4 / 5), 0]"
    using ry(3)[rule_format, of 0] ry(3)[rule_format, of 1] ry(3)[rule_format, of 2]
      ry(3)[rule_format, of 3]
    by (subst list_of_length_4[OF ry(2)]) (simp add: bit_0)
  from w[of "\<lparr>type = GATE_X, target = 0, control = - 1, angle = 0\<rparr>"]
  obtain ax where
    ax: "apply_gate ?st \<lparr>type = GATE_X, target = 0, control = - 1, angle = 0\<rparr>
               = Inr (?st\<lparr>amplitudes := ax\<rparr>, [])" "length ax = 2"
       "\<forall>k<2. ax ! k = (if bit k 0 then [0, 1] ! (k - 1) else [0, 1] ! (k + 1))"
    by auto
  have axv: "ax = [1, 0]"
    using ax(3)[rule_format, of 0] ax(3)[rule_format, of 1]
    by (subst list_of_length_2[OF ax(2)]) (simp add: bit_0)
  from w[of "\<lparr>type = GATE_SWAP, target = 0, control = - 1, angle = 0\<rparr>"]
  have sw: "apply_gate ?st \<lparr>type = GATE_SWAP, target = 0, control = - 1, angle = 0\<rparr>
               = Inr (?st, [''Gate type 5 not implemented''])"
    by (simp add: char_of_def bit_0)
  from h(1) ah(1) x(1) cn(1) ry(1) ax(1) sw show ?thesis
    unfolding hv ahv xv cnv ryv axv by simp
qed




text \<open>
  C8. For every qubit count \<open>n\<close> for which \<open>1 << n\<close> is defined (\<open>n \<le> 30\<close>), right after
  construction the register is in the basis state \<open>|0\<dots>0>\<close>: \<open>getProbabilities\<close> returns
  a vector whose entry 0 is 1 and whose other entries are 0, and the entries sum to 1
  within \<open>10\<^sup>-\<^sup>9\<close>. In the C program \<open>create_state\<close> followed by \<open>initialize_state\<close>
  leaves amplitude 1 at index 0 and 0 elsewhere.
\<close>

theorem constructed_register_is_basis_state:
  assumes "n \<le> 30"
  shows "(\<exists>s ps. QuantumSimulator n g = Inr s \<and> getProbabilities s = Inr ps
            \<and> length ps = 2 ^ n \<and> ps ! 0 = 1 \<and> (\<forall>i. 0 < i \<and> i < 2 ^ n \<longrightarrow> ps ! i = 0)
            \<and> \<bar>sum_list ps - 1\<bar> \<le> 1 / 10 ^ 9)
       \<and> (\<exists>st calls st'. create_state (int n) True True = Inr (Inr st, calls)
            \<and> initialize_state st = Inr st'
            \<and> length (amplitudes st') = 2 ^ n \<and> amplitudes st' ! 0 = 1
            \<and> (\<forall>i. 0 < i \<and> i < 2 ^ n \<longrightarrow> amplitudes st' ! i = 0))"
proof
  let ?s = "\<lparr>num_qubits = n, state_vector = 1 # replicate (2 ^ n - 1) 0, rng = g\<rparr>"
  have c: "QuantumSimulator n g = Inr ?s"
    using assms by (simp add: QuantumSimulator_def replicate_first_one)
  have len: "length (state_vector ?s) = 2 ^ num_qubits ?s" by simp
  have p: "getProbabilities ?s = Inr (map std_norm (1 # replicate (2 ^ n - 1) 0))"
    using getProbabilities_map[OF len] assms by simp
  let ?ps = "map std_norm (1 # replicate (2 ^ n - 1) 0)"
  have total: "sum_list ?ps = 1"
    by (simp add: std_norm_def sum_list_replicate)
  have zero: "\<forall>i. 0 < i \<and> i < 2 ^ n \<longrightarrow> ?ps ! i = 0"
  proof (intro allI impI)
    fix i :: nat assume "0 < i \<and> i < 2 ^ n"
    then show "?ps ! i = 0" by (cases i) simp_all
  qed
  have first: "?ps ! 0 = 1" by (simp add: std_norm_def)
  have "QuantumSimulator n g = Inr ?s \<and> getProbabilities ?s = Inr ?ps
            \<and> length ?ps = 2 ^ n \<and> ?ps ! 0 = 1 \<and> (\<forall>i. 0 < i \<and> i < 2 ^ n \<longrightarrow> ?ps ! i = 0)
            \<and> \<bar>sum_list ?ps - 1\<bar> \<le> 1 / 10 ^ 9"
    using c p total zero first by simp
  then show "\<exists>s ps. QuantumSimulator n g = Inr s \<and> getProbabilities s = Inr ps
            \<and> length ps = 2 ^ n \<and> ps ! 0 = 1 \<and> (\<forall>i. 0 < i \<and> i < 2 ^ n \<longrightarrow> ps ! i = 0)
            \<and> \<bar>sum_list ps - 1\<bar> \<le> 1 / 10 ^ 9"
    by blast
next
  let ?st = "\<lparr>QuantumState.num_qubits = n, dimension = 2 ^ n, amplitudes = replicate (2 ^ n) 0\<rparr>"
  have c: "create_state (int n) True True
           = Inr (Inr ?st, [Malloc_state, Calloc_amplitudes (2 ^ n)])"
    using assms by (simp add: create_state_def MAX_QUBITS_def Let_def)
  have i: "initialize_state ?st = Inr (?st\<lparr>amplitudes := 1 # replicate (2 ^ n - 1) 0\<rparr>)"
    by (rule initialize_state_basis) simp_all
  let ?st' = "?st\<lparr>amplitudes := 1 # replicate (2 ^ n - 1) 0\<rparr>"
  have zero: "\<forall>i. 0 < i \<and> i < 2 ^ n \<longrightarrow> amplitudes ?st' ! i = 0"
  proof (intro allI impI)
    fix i :: nat assume "0 < i \<and> i < 2 ^ n"
    then show "amplitudes ?st' ! i = 0" by (cases i) simp_all
  qed
  have "create_state (int n) True True = Inr (Inr ?st, [Malloc_state, Calloc_amplitudes (2 ^ n)])
            \<and> initialize_state ?st = Inr ?st'
            \<and> length (amplitudes ?st') = 2 ^ n \<and> amplitudes ?st' ! 0 = 1
            \<and> (\<forall>i. 0 < i \<and> i < 2 ^ n \<longrightarrow> amplitudes ?st' ! i = 0)"
    using c i zero by simp
  then show "\<exists>st calls st'. create_state (int n) True True = Inr (Inr st, calls)
            \<and> initialize_state st = Inr st'
            \<and> length (amplitudes st') = 2 ^ n \<and> amplitudes st' ! 0 = 1
            \<and> (\<forall>i. 0 < i \<and> i < 2 ^ n \<longrightarrow> amplitudes st' ! i = 0)"
    by blast
qed

theorem constructed_register_is_basis_state_witness:
  "(2::nat) \<le> 30
   \<and> (\<exists>s ps. QuantumSimulator 2 (sconst 0) = Inr s \<and> getProbabilities s = Inr ps
         \<and> length ps = 2 ^ 2 \<and> ps ! 0 = 1 \<and> (\<forall>i. 0 < i \<and> i < 2 ^ 2 \<longrightarrow> ps ! i = 0)
         \<and> \<bar>sum_list ps - 1\<bar> \<le> 1 / 10 ^ 9)
   \<and> (\<exists>st calls st'. create_state (int 2) True True = Inr (Inr st, calls)
         \<and> initialize_state st = Inr st'
         \<and> length (amplitudes st') = 2 ^ 2 \<and> amplitudes st' ! 0 = 1
         \<and> (\<forall>i. 0 < i \<and> i < 2 ^ 2 \<longrightarrow> amplitudes st' ! i = 0))"
  using constructed_register_is_basis_state[of 2 "sconst 0"] by simp

text \<open>
  C9 as stated does not hold in double arithmetic. On the register of two qubits as
  the constructor leaves it, \<open>applyH(0)\<close> and \<open>applyH(1)\<close> give four amplitudes
  \<open>0.49999999999999994\<close>. \<open>measure(1)\<close> with the draw \<open>0.25\<close> returns 0 and leaves
  \<open>0.7071067811865475\<close> at the indices 0 and 1. The repeated \<open>measure(1)\<close> computes
  \<open>prob0 = 0.9999999999999998\<close>, not 1, so with the draw \<open>1 - 2^-53\<close>, a double of
  \<open>[0, 1)\<close>, it returns 1 and zeroes every amplitude.
\<close>

theorem measure_again_double_counterexample:
  "QuantumSimulator 2 ((1 / 4) ## (1 - 1 / 2 ^ 53) ## sconst 0)
     = Inr \<lparr>num_qubits = 2, state_vector = [1, 0, 0, 0],
            rng = (1 / 4) ## (1 - 1 / 2 ^ 53) ## sconst 0\<rparr>
   \<and> applyH_fl 0 \<lparr>num_qubits = 2, state_vector = [1, 0, 0, 0],
                   rng = (1 / 4) ## (1 - 1 / 2 ^ 53) ## sconst 0\<rparr>
     = Inr \<lparr>num_qubits = 2,
            state_vector = [Complex (6369051672525772 / 2 ^ 53) 0,
                            Complex (6369051672525772 / 2 ^ 53) 0, 0, 0],
            rng = (1 / 4) ## (1 - 1 / 2 ^ 53) ## sconst 0\<rparr>
   \<and> applyH_fl 1 \<lparr>num_qubits = 2,
                   state_vector = [Complex (6369051672525772 / 2 ^ 53) 0,
                                   Complex (6369051672525772 / 2 ^ 53) 0, 0, 0],
                   rng = (1 / 4) ## (1 - 1 / 2 ^ 53) ## sconst 0\<rparr>
     = Inr \<lparr>num_qubits = 2,
            state_vector = [Complex (9007199254740991 / 2 ^ 54) 0,
                            Complex (9007199254740991 / 2 ^ 54) 0,
                            Complex (9007199254740991 / 2 ^ 54) 0,
                            Complex (9007199254740991 / 2 ^ 54) 0],
            rng = (1 / 4) ## (1 - 1 / 2 ^ 53) ## sconst 0\<rparr>
   \<and> measure_fl 1 \<lparr>num_qubits = 2,
                    state_vector = [Complex (9007199254740991 / 2 ^ 54) 0,
                                    Complex (9007199254740991 / 2 ^ 54) 0,
                                    Complex (9007199254740991 / 2 ^ 54) 0,
                                    Complex (9007199254740991 / 2 ^ 54) 0],
                    rng = (1 / 4) ## (1 - 1 / 2 ^ 53) ## sconst 0\<rparr>
     = Inr (0, \<lparr>num_qubits = 2,
                state_vector = [Complex (6369051672525772 / 2 ^ 53) 0,
                                Complex (6369051672525772 / 2 ^ 53) 0, 0, 0],
                rng = (1 - 1 / 2 ^ 53) ## sconst 0\<rparr>)
   \<and> (0::real) \<le> 1 - 1 / 2 ^ 53 \<and> (1 - 1 / 2 ^ 53 :: real) < 1
   \<and> measure_fl 1 \<lparr>num_qubits = 2,
                    state_vector = [Complex (6369051672525772 / 2 ^ 53) 0,
                                    Complex (6369051672525772 / 2 ^ 53) 0, 0, 0],
                    rng = (1 - 1 / 2 ^ 53) ## sconst 0\<rparr>
     = Inr (1, \<lparr>num_qubits = 2, state_vector = [0, 0, 0, 0], rng = sconst 0\<rparr>)"
proof -
  have c: "QuantumSimulator 2 ((1 / 4) ## (1 - 1 / 2 ^ 53) ## sconst 0)
     = Inr \<lparr>num_qubits = 2, state_vector = [1, 0, 0, 0],
            rng = (1 / 4) ## (1 - 1 / 2 ^ 53) ## sconst 0\<rparr>"
    by (simp add: QuantumSimulator_def eval_nat_numeral)
  have r: "(0::real) \<le> 1 - 1 / 2 ^ 53" "(1 - 1 / 2 ^ 53 :: real) < 1"
    by simp_all
  show ?thesis
    by (intro conjI c r applyH_fl_first applyH_fl_second measure_fl_first measure_fl_second)
qed

text \<open>
  C9, as the code has it. After \<open>measure\<close> on an in-range qubit has returned bit 1, a
  \<open>measure\<close> of the same qubit run at once returns bit 1 again for every new draw in
  \<open>[0, 1)\<close> and leaves the amplitudes as they were: the \<open>prob0\<close> it computes is exactly
  0. After \<open>measure\<close> has returned bit 0, the repeated \<open>measure\<close> returns bit 0 exactly
  when the new draw is below the \<open>prob0\<close> it computes; when that \<open>prob0\<close> is exactly 1,
  this is every draw in \<open>[0, 1)\<close>, and the amplitudes are left as they were.
\<close>

theorem measure_again_by_recomputed_prob0:
  assumes "length (state_vector s) = 2 ^ num_qubits s" and "num_qubits s \<le> 30"
    and "q < num_qubits s"
    and "0 \<le> shd (rng s)" and "shd (rng s) < 1"
    and "0 \<le> shd (stl (rng s))" and "shd (stl (rng s)) < 1"
  shows "\<exists>b sv1 p' b' sv2.
           measure' q s = Inr (b, s\<lparr>state_vector := sv1, rng := stl (rng s)\<rparr>)
         \<and> measure_prob0 (num_qubits s) (2 ^ q) 0 sv1 0 = Inr p'
         \<and> measure' q (s\<lparr>state_vector := sv1, rng := stl (rng s)\<rparr>)
             = Inr (b', s\<lparr>state_vector := sv2, rng := stl (stl (rng s))\<rparr>)
         \<and> (b' = 0 \<longleftrightarrow> shd (stl (rng s)) < p')
         \<and> (b = 1 \<longrightarrow> p' = 0 \<and> b' = 1 \<and> sv2 = sv1)
         \<and> (b = 0 \<and> p' = 1 \<longrightarrow> b' = 0 \<and> sv2 = sv1)"
proof -
  let ?r1 = "shd (rng s)" and ?r2 = "shd (stl (rng s))"
  let ?b = "fst (measure_spec q ?r1 (state_vector s))"
  let ?sv1 = "snd (measure_spec q ?r1 (state_vector s))"
  let ?s1 = "s\<lparr>state_vector := ?sv1, rng := stl (rng s)\<rparr>"
  let ?p' = "prob0_spec q ?sv1"
  have n: "num_qubits s < 31" and q: "q < 31" using assms(2,3) by simp_all
  have first: "measure' q s = Inr (?b, ?s1)"
    using measure_eq_spec[OF assms(1) q n] .
  have len1: "length ?sv1 = 2 ^ num_qubits s" using assms(1) by simp
  have p: "measure_prob0 (num_qubits s) (2 ^ q) 0 ?sv1 0 = Inr ?p'"
    using len1 by (rule measure_prob0_spec)
  have len1': "length (state_vector ?s1) = 2 ^ num_qubits ?s1" using assms(1) by simp
  have "measure' q ?s1 =
        Inr (fst (measure_spec q (shd (rng ?s1)) (state_vector ?s1)),
             ?s1\<lparr>state_vector := snd (measure_spec q (shd (rng ?s1)) (state_vector ?s1)),
                 rng := stl (rng ?s1)\<rparr>)"
    by (rule measure_eq_spec[OF len1' q]) (use n in simp)
  moreover have "measure_spec q ?r2 ?sv1 = measure_spec q ?r1 (state_vector s)"
    using assms(4-7) by (rule measure_spec_idem)
  ultimately have second:
    "measure' q ?s1 = Inr (?b, s\<lparr>state_vector := ?sv1, rng := stl (stl (rng s))\<rparr>)"
    by simp
  have pv: "?p' = (if ?b = 0 then 1 else 0)"
    using prob0_spec_after[OF assms(4,5), of q "state_vector s"] .
  have cmp: "?b = 0 \<longleftrightarrow> ?r2 < ?p'"
    using pv assms(6,7) by auto
  show ?thesis
    by (intro exI[of _ ?b] exI[of _ ?sv1] exI[of _ ?p'] conjI impI first p second cmp)
       (use pv in auto)
qed

theorem measure_again_by_recomputed_prob0_witness:
  "length (state_vector \<lparr>num_qubits = 2, state_vector = [3 / 5, 0, 0, 4 / 5],
                         rng = (1 / 4) ## (3 / 4) ## sconst 0\<rparr>) = 2 ^ 2
   \<and> (2::nat) \<le> 30 \<and> (0::nat) < 2
   \<and> (0::real) \<le> 1 / 4 \<and> (1 / 4 :: real) < 1 \<and> (0::real) \<le> 3 / 4 \<and> (3 / 4 :: real) < 1
   \<and> (0::real) \<le> 1 / 2 \<and> (1 / 2 :: real) < 1
   \<and> measure' 0 \<lparr>num_qubits = 2, state_vector = [3 / 5, 0, 0, 4 / 5],
                   rng = (1 / 4) ## (3 / 4) ## sconst 0\<rparr>
       = Inr (0, \<lparr>num_qubits = 2, state_vector = [1, 0, 0, 0], rng = (3 / 4) ## sconst 0\<rparr>)
   \<and> measure_prob0 2 (2 ^ 0) 0 [1, 0, 0, 0] 0 = Inr 1
   \<and> measure' 0 \<lparr>num_qubits = 2, state_vector = [1, 0, 0, 0], rng = (3 / 4) ## sconst 0\<rparr>
       = Inr (0, \<lparr>num_qubits = 2, state_vector = [1, 0, 0, 0], rng = sconst 0\<rparr>)
   \<and> measure' 0 \<lparr>num_qubits = 2, state_vector = [3 / 5, 0, 0, 4 / 5],
                   rng = (1 / 2) ## (3 / 4) ## sconst 0\<rparr>
       = Inr (1, \<lparr>num_qubits = 2, state_vector = [0, 0, 0, 1], rng = (3 / 4) ## sconst 0\<rparr>)
   \<and> measure_prob0 2 (2 ^ 0) 0 [0, 0, 0, 1] 0 = Inr 0
   \<and> measure' 0 \<lparr>num_qubits = 2, state_vector = [0, 0, 0, 1], rng = (3 / 4) ## sconst 0\<rparr>
       = Inr (1, \<lparr>num_qubits = 2, state_vector = [0, 0, 0, 1], rng = sconst 0\<rparr>)"
proof -
  let ?a = "\<lparr>num_qubits = 2, state_vector = [3 / 5, 0, 0, 4 / 5],
             rng = (1 / 4) ## (3 / 4) ## sconst 0\<rparr>"
  let ?b = "\<lparr>num_qubits = 2, state_vector = [3 / 5, 0, 0, 4 / 5],
             rng = (1 / 2) ## (3 / 4) ## sconst 0\<rparr>"
  have a1: "measure' 0 ?a
       = Inr (0, \<lparr>num_qubits = 2, state_vector = [1, 0, 0, 0], rng = (3 / 4) ## sconst 0\<rparr>)"
    by (subst measure_eq_spec)
       (simp_all add: measure_spec_def prob0_spec_example sqrt_9_25 bit_0 Let_def)
  have b1: "measure' 0 ?b
       = Inr (1, \<lparr>num_qubits = 2, state_vector = [0, 0, 0, 1], rng = (3 / 4) ## sconst 0\<rparr>)"
    by (subst measure_eq_spec)
       (simp_all add: measure_spec_def prob0_spec_example sqrt_16_25 bit_0 Let_def)
  have pa: "measure_prob0 2 (2 ^ 0) 0 [1, 0, 0, 0] 0 = Inr 1"
    and pb: "measure_prob0 2 (2 ^ 0) 0 [0, 0, 0, 1] 0 = Inr 0"
    using measure_prob0_spec[of "[1, 0, 0, 0]" 2 0] measure_prob0_spec[of "[0, 0, 0, 1]" 2 0]
    by (simp_all add: prob0_spec_def bit_0)
  from measure_again_by_recomputed_prob0[of ?a 0] a1 pa
  have a2: "measure' 0 \<lparr>num_qubits = 2, state_vector = [1, 0, 0, 0], rng = (3 / 4) ## sconst 0\<rparr>
       = Inr (0, \<lparr>num_qubits = 2, state_vector = [1, 0, 0, 0], rng = sconst 0\<rparr>)"
    by auto
  from measure_again_by_recomputed_prob0[of ?b 0] b1 pb
  have b2: "measure' 0 \<lparr>num_qubits = 2, state_vector = [0, 0, 0, 1], rng = (3 / 4) ## sconst 0\<rparr>
       = Inr (1, \<lparr>num_qubits = 2, state_vector = [0, 0, 0, 1], rng = sconst 0\<rparr>)"
    by auto
  from a1 a2 pa b1 b2 pb show ?thesis by simp
qed

text \<open>
  C10. In the C++ simulator \<open>applyCNOT(c, t)\<close> with \<open>c == t\<close> is the identity and
  returns normally. The two masks coincide, so the condition under which the loop
  swaps (control bit set, target bit clear) holds for no index: from every loop
  position the loop leaves the vector as it is, without reading or writing an entry,
  and the method returns the register it was given. No fault and no error arises.
\<close>

theorem applyCNOT_same_qubit_is_identity:
  assumes "c < 31" and "num_qubits s < 31"
  shows "applyCNOT c c s = Inr s
       \<and> (\<forall>i sv. \<not> (i AND 2 ^ c \<noteq> 0 \<and> (if i AND 2 ^ c \<noteq> 0 then 1 else 0 :: nat) = 0)
                 \<and> applyCNOT_loop (num_qubits s) (2 ^ c) (2 ^ c) i sv = Inr sv)"
  using assms by (simp add: applyCNOT_def Let_def applyCNOT_loop_same_mask)

theorem applyCNOT_same_qubit_is_identity_witness:
  "(1::nat) < 31 \<and> num_qubits \<lparr>num_qubits = 2, state_vector = [0, 1, 0, 0], rng = sconst 0\<rparr> < 31
   \<and> applyCNOT 1 1 \<lparr>num_qubits = 2, state_vector = [0, 1, 0, 0], rng = sconst 0\<rparr>
       = Inr \<lparr>num_qubits = 2, state_vector = [0, 1, 0, 0], rng = sconst 0\<rparr>"
  using applyCNOT_same_qubit_is_identity
    [of 1 "\<lparr>num_qubits = 2, state_vector = [0, 1, 0, 0], rng = sconst 0\<rparr>"]
  by simp

end
